theory Spec2Isabelle
  imports Complex_Main
begin

section \<open>The expense dashboard of \<open>frontend/src/App.js\<close>\<close>

text \<open>
  The component \<open>App\<close> holds nine state slots (\<open>useState\<close>) and a handful of handlers
  that read the slots of the current render and write new values into them. Each handler
  is modelled as a function from the state it closes over to the state after all of its
  \<open>set...\<close> calls, paired with the HTTP requests it issued, in order, or, for the one
  handler that can throw, with the error it threw. Everything a handler obtains from
  outside the component (responses, the clock, the confirmation dialog) is a field of the
  record \<open>env\<close>.

  A JavaScript string is a sequence of UTF-16 code units; here it is a \<open>string\<close> whose
  characters are the code units below 256, which covers every literal of the file
  (the accented letters of the messages and labels are single Latin-1 code units).
  Output to the console is not part of the state and is left out.
\<close>

subsection \<open>Numbers\<close>

text \<open>
  A Number is NaN, an infinity, a zero or a finite non-zero double; the flag is \<open>True\<close>
  for the negative one. A finite non-zero double \<open>x\<close> is held as the decimal by which the
  language identifies it: \<open>Finite neg s n\<close> is the double for which \<open>Number::toString\<close>
  finds the integers \<open>s\<close> and \<open>n\<close> of its fifth step, that is, \<open>s\<close> has \<open>k\<close> digits, the
  last of them not \<open>0\<close>, and \<open>s \<times> 10 powi (n - k)\<close> is the shortest decimal whose nearest
  double is \<open>\<bar>x\<bar>\<close>. So 25.5 is \<open>Finite False 255 2\<close> and 0.001 is \<open>Finite False 1 (- 2)\<close>. Which
  decimals are doubles, and the rounding of an arbitrary decimal literal to the nearest
  double, are floating-point matters; the second is a field of \<open>env\<close>.
\<close>

datatype jsnumber = NaN | Infinity bool | Zero bool | Finite bool nat int

text \<open>The numbers in the form that the fifth step of \<open>Number::toString\<close> yields.\<close>

fun canonical :: "jsnumber \<Rightarrow> bool" where
  "canonical (Finite neg s n) = (0 < s \<and> \<not> 10 dvd s)"
| "canonical _ = True"

subsection \<open>Data\<close>

text \<open>
  An expense as the service sends it. The amount is a Number, or \<open>None\<close> when the record
  has \<open>null\<close> or nothing under \<open>amount\<close>.
\<close>

record expense =
  e_id :: string
  e_description :: string
  e_amount :: "jsnumber option"
  e_category :: string
  e_date :: string

record dashboard_stats =
  total_expenses :: jsnumber
  total_count :: jsnumber
  average_expense :: jsnumber
  monthly_total :: jsnumber

record category_summary =
  cs_category :: string
  cs_total :: jsnumber
  cs_count :: jsnumber
  cs_percentage :: jsnumber

text \<open>The four text inputs of the form; \<open>amount\<close> is the text of the input, not a number.\<close>

record form_data =
  description :: string
  amount :: string
  category :: string
  date :: string

text \<open>The body of a create or update request: \<open>{...formData, amount: parseFloat(...)}\<close>.\<close>

record expense_data =
  d_description :: string
  d_amount :: jsnumber
  d_category :: string
  d_date :: string

datatype request =
    GET_expenses
  | GET_categories
  | GET_dashboard_stats
  | GET_dashboard_categories
  | POST expense_data
  | PUT string expense_data
  | DELETE string

datatype fetch = Expenses | Categories | DashboardStats | CategorySummaries

record app_state =
  expenses :: "expense list"
  categories :: "string list"
  dashboardStats :: "dashboard_stats option"
  categorySummaries :: "category_summary list"
  loading :: bool
  error :: string
  showForm :: bool
  editingExpense :: "expense option"
  formData :: form_data

text \<open>
  What the surroundings answer during one run of a handler. A read request is answered
  with its data or rejected (\<open>None\<close>); \<open>latency\<close> orders the completions of the four
  concurrent reads; \<open>accepts\<close> says whether a POST, PUT or DELETE is fulfilled;
  \<open>today\<close> is \<open>new Date().toISOString().split('T')[0]\<close>; \<open>confirm\<close> is the answer of
  \<open>window.confirm\<close>.
\<close>

record env =
  get_expenses :: "expense list option"
  get_categories :: "string list option"
  get_stats :: "dashboard_stats option"
  get_summaries :: "category_summary list option"
  latency :: "fetch \<Rightarrow> nat"
  accepts :: "request \<Rightarrow> bool"
  today :: string
  confirm :: bool
  StringNumericValue :: "string \<Rightarrow> jsnumber"

subsection \<open>Built-in functions of the language\<close>

definition isStrWhiteSpaceChar :: "char \<Rightarrow> bool" where
  "isStrWhiteSpaceChar c \<longleftrightarrow>
     c \<in> set [CHR 0x09, CHR 0x0A, CHR 0x0B, CHR 0x0C, CHR 0x0D, CHR 0x20, CHR 0xA0]"

definition isDecimalDigit :: "char \<Rightarrow> bool" where
  "isDecimalDigit c \<longleftrightarrow> c \<in> set ''0123456789''"

text \<open>The longest prefix that is an ExponentPart, or nothing.\<close>

definition ExponentPart_prefix :: "string \<Rightarrow> string" where
  "ExponentPart_prefix s =
     (case s of
        [] \<Rightarrow> []
      | e # r \<Rightarrow>
          if e = CHR ''e'' \<or> e = CHR ''E'' then
            (let sg = (case r of [] \<Rightarrow> [] | c # _ \<Rightarrow> if c = CHR ''+'' \<or> c = CHR ''-'' then [c] else []);
                 ds = takeWhile isDecimalDigit (drop (length sg) r)
             in if ds = [] then [] else e # sg @ ds)
          else [])"

text \<open>The longest prefix that is a StrUnsignedDecimalLiteral, when there is one.\<close>

definition StrUnsignedDecimalLiteral_prefix :: "string \<Rightarrow> string option" where
  "StrUnsignedDecimalLiteral_prefix s =
     (if take 8 s = ''Infinity'' then Some ''Infinity''
      else
        (let ds = takeWhile isDecimalDigit s; r = dropWhile isDecimalDigit s
         in case r of
              [] \<Rightarrow> if ds = [] then None else Some ds
            | c # r' \<Rightarrow>
                if c = CHR ''.'' then
                  (let fs = takeWhile isDecimalDigit r'; r'' = dropWhile isDecimalDigit r'
                   in if ds = [] \<and> fs = [] then None
                      else Some (ds @ ''.'' @ fs @ ExponentPart_prefix r''))
                else if ds = [] then None
                else Some (ds @ ExponentPart_prefix r)))"

definition StrDecimalLiteral_prefix :: "string \<Rightarrow> string option" where
  "StrDecimalLiteral_prefix s =
     (case s of
        [] \<Rightarrow> None
      | c # r \<Rightarrow>
          if c = CHR ''+'' \<or> c = CHR ''-''
          then map_option (Cons c) (StrUnsignedDecimalLiteral_prefix r)
          else StrUnsignedDecimalLiteral_prefix s)"

text \<open>
  \<open>parseFloat\<close>: skip leading white space; NaN when no prefix of the rest is a decimal
  literal; the Number value of the longest such prefix otherwise.
\<close>

definition parseFloat :: "env \<Rightarrow> string \<Rightarrow> jsnumber" where
  "parseFloat w s =
     (case StrDecimalLiteral_prefix (dropWhile isStrWhiteSpaceChar s) of
        None \<Rightarrow> NaN
      | Some lit \<Rightarrow> StringNumericValue w lit)"

text \<open>The decimal digits of a natural number, the most significant first.\<close>

definition digit_char :: "nat \<Rightarrow> char" where
  "digit_char d = ''0123456789'' ! d"

fun digits :: "nat \<Rightarrow> string" where
  "digits m = (if m < 10 then [digit_char m] else digits (m div 10) @ [digit_char (m mod 10)])"

declare digits.simps [simp del]

text \<open>
  \<open>Number.prototype.toString\<close> with the default radix. For a finite non-zero number with
  digits \<open>s\<close> (\<open>k\<close> of them) and exponent \<open>n\<close>: the digits followed by zeros when
  \<open>k \<le> n \<le> 21\<close>; the digits with a point after the first \<open>n\<close> when \<open>0 < n \<le> 21\<close>;
  \<open>0.\<close>, zeros and the digits when \<open>-6 < n \<le> 0\<close>; the exponent notation otherwise.
\<close>

definition exponent_text :: "int \<Rightarrow> string" where
  "exponent_text e = (if e < 0 then ''-'' else ''+'') @ digits (nat \<bar>e\<bar>)"

definition positive_text :: "nat \<Rightarrow> int \<Rightarrow> string" where
  "positive_text s n =
     (let ds = digits s; k = int (length ds)
      in if k \<le> n \<and> n \<le> 21 then ds @ replicate (nat (n - k)) (CHR ''0'')
         else if 0 < n \<and> n \<le> 21 then take (nat n) ds @ ''.'' @ drop (nat n) ds
         else if - 6 < n \<and> n \<le> 0 then ''0.'' @ replicate (nat (- n)) (CHR ''0'') @ ds
         else if k = 1 then ds @ ''e'' @ exponent_text (n - 1)
         else hd ds # ''.'' @ tl ds @ ''e'' @ exponent_text (n - 1))"

definition Number_toString :: "jsnumber \<Rightarrow> string" where
  "Number_toString x =
     (case x of
        NaN \<Rightarrow> ''NaN''
      | Infinity neg \<Rightarrow> (if neg then ''-Infinity'' else ''Infinity'')
      | Zero neg \<Rightarrow> ''0''
      | Finite neg s n \<Rightarrow> (if neg then ''-'' else []) @ positive_text s n)"

text \<open>
  The mathematical value of a decimal literal other than \<open>Infinity\<close>, as the grammar of
  numeric strings assigns it: the digits before and after the point read as one integer,
  scaled by the exponent less the number of digits after the point.
\<close>

definition digit_value :: "char \<Rightarrow> nat" where
  "digit_value c = of_char c - 48"

definition digits_value :: "string \<Rightarrow> nat" where
  "digits_value cs = foldl (\<lambda>a c. 10 * a + digit_value c) 0 cs"

definition exponent_value :: "string \<Rightarrow> int" where
  "exponent_value x =
     (case x of
        [] \<Rightarrow> 0
      | e # r \<Rightarrow>
          (case r of
             [] \<Rightarrow> 0
           | c # r' \<Rightarrow>
               if c = CHR ''-'' then - int (digits_value r')
               else if c = CHR ''+'' then int (digits_value r')
               else int (digits_value r)))"

definition unsigned_MV :: "string \<Rightarrow> rat" where
  "unsigned_MV u =
     (let ip = takeWhile isDecimalDigit u; r = dropWhile isDecimalDigit u;
          fp = (case r of [] \<Rightarrow> []
                | c # r' \<Rightarrow> if c = CHR ''.'' then takeWhile isDecimalDigit r' else []);
          x = (case r of [] \<Rightarrow> []
               | c # r' \<Rightarrow> if c = CHR ''.'' then dropWhile isDecimalDigit r' else r)
      in of_nat (digits_value (ip @ fp)) * 10 powi (exponent_value x - int (length fp)))"

definition MV :: "string \<Rightarrow> rat" where
  "MV lit =
     (case lit of
        [] \<Rightarrow> 0
      | c # r \<Rightarrow>
          if c = CHR ''-'' then - unsigned_MV r
          else if c = CHR ''+'' then unsigned_MV r
          else unsigned_MV lit)"

text \<open>The decimal that identifies a finite number.\<close>

fun decimal_value :: "jsnumber \<Rightarrow> rat option" where
  "decimal_value (Zero neg) = Some 0"
| "decimal_value (Finite neg s n) =
     Some ((if neg then - 1 else 1) * of_nat s * 10 powi (n - int (length (digits s))))"
| "decimal_value _ = None"

text \<open>
  The value of a property read \<open>obj[key]\<close> on an object written as a literal with string
  values: the own property when the literal has the key, else what the object inherits
  from \<open>Object.prototype\<close> under that name (a function or object, never a string), else
  \<open>undefined\<close>.
\<close>

datatype jsvalue = Undefined | Str string | Inherited string

definition Object_prototype_names :: "string list" where
  "Object_prototype_names =
     [''constructor'', ''__defineGetter__'', ''__defineSetter__'', ''hasOwnProperty'',
      ''__lookupGetter__'', ''__lookupSetter__'', ''isPrototypeOf'',
      ''propertyIsEnumerable'', ''toString'', ''valueOf'', ''__proto__'',
      ''toLocaleString'']"

definition get_property :: "(string \<times> string) list \<Rightarrow> string \<Rightarrow> jsvalue" where
  "get_property own key =
     (case map_of own key of
        Some v \<Rightarrow> Str v
      | None \<Rightarrow> if key \<in> set Object_prototype_names then Inherited key else Undefined)"

fun truthy :: "jsvalue \<Rightarrow> bool" where
  "truthy Undefined = False"
| "truthy (Str s) = (s \<noteq> [])"
| "truthy (Inherited _) = True"

text \<open>\<open>a || b\<close>.\<close>

definition or_else :: "jsvalue \<Rightarrow> jsvalue \<Rightarrow> jsvalue" where
  "or_else a b = (if truthy a then a else b)"

subsection \<open>Category colours\<close>

definition CATEGORY_COLORS :: "(string \<times> string) list" where
  "CATEGORY_COLORS =
     [(''Alimenta'' @ [CHR 0xE7, CHR 0xE3] @ ''o'', ''#ef4444''),
      (''Transporte'', ''#f97316''),
      (''Lazer'', ''#eab308''),
      (''Sa'' @ [CHR 0xFA] @ ''de'', ''#22c55e''),
      (''Educa'' @ [CHR 0xE7, CHR 0xE3] @ ''o'', ''#3b82f6''),
      (''Casa'', ''#8b5cf6''),
      (''Roupas'', ''#ec4899''),
      (''Tecnologia'', ''#06b6d4''),
      (''Outros'', ''#64748b'')]"

text \<open>The expression \<open>CATEGORY_COLORS[label] || '#64748b'\<close> of the three render sites.\<close>

definition category_color :: "string \<Rightarrow> jsvalue" where
  "category_color label = or_else (get_property CATEGORY_COLORS label) (Str ''#64748b'')"

text \<open>\<open>doughnutData.datasets[0].backgroundColor\<close>.\<close>

definition doughnut_backgroundColor :: "app_state \<Rightarrow> jsvalue list" where
  "doughnut_backgroundColor s = map (\<lambda>cat. category_color (cs_category cat)) (categorySummaries s)"

text \<open>The dots of the summary list and the badges of the expense table.\<close>

definition summary_dot_colors :: "app_state \<Rightarrow> jsvalue list" where
  "summary_dot_colors s = map (\<lambda>cat. category_color (cs_category cat)) (categorySummaries s)"

definition expense_badge_colors :: "app_state \<Rightarrow> jsvalue list" where
  "expense_badge_colors s = map (\<lambda>expense. category_color (e_category expense)) (expenses s)"

subsection \<open>Loading\<close>

text \<open>
  Each fetch function sends its request (\<open>request_of\<close> below) and, when the answer
  arrives, either stores the data in its slot or, in its own \<open>catch\<close>, sets its error
  message. The four functions below are what each one does at that moment; none of them
  lets an error escape to its caller.
\<close>

definition msg_expenses :: string where
  "msg_expenses = ''Erro ao carregar despesas''"

definition msg_categories :: string where
  "msg_categories = ''Erro ao carregar categorias''"

definition msg_stats :: string where
  "msg_stats = ''Erro ao carregar estat'' @ [CHR 0xED] @ ''sticas''"

definition msg_summaries :: string where
  "msg_summaries = ''Erro ao carregar resumo por categoria''"

definition fetchExpenses :: "env \<Rightarrow> app_state \<Rightarrow> app_state" where
  "fetchExpenses w s =
     (case get_expenses w of
        Some d \<Rightarrow> s\<lparr>expenses := d\<rparr>
      | None \<Rightarrow> s\<lparr>error := msg_expenses\<rparr>)"

definition fetchCategories :: "env \<Rightarrow> app_state \<Rightarrow> app_state" where
  "fetchCategories w s =
     (case get_categories w of
        Some d \<Rightarrow> s\<lparr>categories := d\<rparr>
      | None \<Rightarrow> s\<lparr>error := msg_categories\<rparr>)"

definition fetchDashboardStats :: "env \<Rightarrow> app_state \<Rightarrow> app_state" where
  "fetchDashboardStats w s =
     (case get_stats w of
        Some d \<Rightarrow> s\<lparr>dashboardStats := Some d\<rparr>
      | None \<Rightarrow> s\<lparr>error := msg_stats\<rparr>)"

definition fetchCategorySummaries :: "env \<Rightarrow> app_state \<Rightarrow> app_state" where
  "fetchCategorySummaries w s =
     (case get_summaries w of
        Some d \<Rightarrow> s\<lparr>categorySummaries := d\<rparr>
      | None \<Rightarrow> s\<lparr>error := msg_summaries\<rparr>)"

fun on_response :: "env \<Rightarrow> fetch \<Rightarrow> app_state \<Rightarrow> app_state" where
  "on_response w Expenses = fetchExpenses w"
| "on_response w Categories = fetchCategories w"
| "on_response w DashboardStats = fetchDashboardStats w"
| "on_response w CategorySummaries = fetchCategorySummaries w"

fun failed :: "env \<Rightarrow> fetch \<Rightarrow> bool" where
  "failed w Expenses = (get_expenses w = None)"
| "failed w Categories = (get_categories w = None)"
| "failed w DashboardStats = (get_stats w = None)"
| "failed w CategorySummaries = (get_summaries w = None)"

fun msg_of :: "fetch \<Rightarrow> string" where
  "msg_of Expenses = msg_expenses"
| "msg_of Categories = msg_categories"
| "msg_of DashboardStats = msg_stats"
| "msg_of CategorySummaries = msg_summaries"

text \<open>The request each fetch function sends before it waits.\<close>

fun request_of :: "fetch \<Rightarrow> request" where
  "request_of Expenses = GET_expenses"
| "request_of Categories = GET_categories"
| "request_of DashboardStats = GET_dashboard_stats"
| "request_of CategorySummaries = GET_dashboard_categories"

text \<open>The reads in the order \<open>Promise.all\<close> starts them, and the requests they issue.\<close>

definition all_fetches :: "fetch list" where
  "all_fetches = [Expenses, Categories, DashboardStats, CategorySummaries]"

definition read_requests :: "request list" where
  "read_requests = map request_of all_fetches"

text \<open>The order in which the four answers arrive: by latency, ties in starting order.\<close>

definition completion_order :: "env \<Rightarrow> fetch list" where
  "completion_order w = sort_key (latency w) all_fetches"

definition loadAllData :: "env \<Rightarrow> app_state \<Rightarrow> app_state \<times> request list" where
  "loadAllData w s =
     ((fold (on_response w) (completion_order w) (s\<lparr>loading := True\<rparr>))\<lparr>loading := False\<rparr>,
      read_requests)"

subsection \<open>The form\<close>

definition default_form :: "env \<Rightarrow> form_data" where
  "default_form w = \<lparr>description = [], amount = [], category = [], date = today w\<rparr>"

definition initial_state :: "env \<Rightarrow> app_state" where
  "initial_state w =
     \<lparr>expenses = [], categories = [], dashboardStats = None, categorySummaries = [],
      loading = True, error = [], showForm = False, editingExpense = None,
      formData = default_form w\<rparr>"

datatype field = Description | Amount | Category | Date

fun handleInputChange :: "field \<Rightarrow> string \<Rightarrow> app_state \<Rightarrow> app_state" where
  "handleInputChange Description v s = s\<lparr>formData := (formData s)\<lparr>description := v\<rparr>\<rparr>"
| "handleInputChange Amount v s = s\<lparr>formData := (formData s)\<lparr>amount := v\<rparr>\<rparr>"
| "handleInputChange Category v s = s\<lparr>formData := (formData s)\<lparr>category := v\<rparr>\<rparr>"
| "handleInputChange Date v s = s\<lparr>formData := (formData s)\<lparr>date := v\<rparr>\<rparr>"

definition msg_required :: string where
  "msg_required = ''Todos os campos s'' @ [CHR 0xE3] @ ''o obrigat'' @ [CHR 0xF3] @ ''rios''"

definition msg_update :: string where
  "msg_update = ''Erro ao atualizar despesa''"

definition msg_create :: string where
  "msg_create = ''Erro ao criar despesa''"

definition msg_delete :: string where
  "msg_delete = ''Erro ao excluir despesa''"

text \<open>The first test of \<open>handleSubmit\<close>: a string is falsy exactly when it is empty.\<close>

definition invalid_form :: "form_data \<Rightarrow> bool" where
  "invalid_form fd \<longleftrightarrow> description fd = [] \<or> amount fd = [] \<or> category fd = []"

definition expenseData :: "env \<Rightarrow> form_data \<Rightarrow> expense_data" where
  "expenseData w fd =
     \<lparr>d_description = description fd, d_amount = parseFloat w (amount fd),
      d_category = category fd, d_date = date fd\<rparr>"

definition submit_request :: "env \<Rightarrow> app_state \<Rightarrow> request" where
  "submit_request w s =
     (case editingExpense s of
        Some e \<Rightarrow> PUT (e_id e) (expenseData w (formData s))
      | None \<Rightarrow> POST (expenseData w (formData s)))"

definition handleSubmit :: "env \<Rightarrow> app_state \<Rightarrow> app_state \<times> request list" where
  "handleSubmit w s =
     (if invalid_form (formData s) then (s\<lparr>error := msg_required\<rparr>, [])
      else if accepts w (submit_request w s) then
        (let (s', rs) = loadAllData w
               (s\<lparr>formData := default_form w, showForm := False,
                  editingExpense := None, error := []\<rparr>)
         in (s', submit_request w s # rs))
      else
        (s\<lparr>error := (case editingExpense s of Some _ \<Rightarrow> msg_update | None \<Rightarrow> msg_create)\<rparr>,
         [submit_request w s]))"

text \<open>
  \<open>handleEdit\<close> calls \<open>setEditingExpense(expense)\<close> first and then builds the form data,
  where \<open>expense.amount.toString()\<close> throws a TypeError if the record has no amount: the
  handler ends there, with the first update made and the other two not. The second
  component of the result says whether it threw.
\<close>

datatype js_error = TypeError

definition handleEdit :: "expense \<Rightarrow> app_state \<Rightarrow> app_state \<times> js_error option" where
  "handleEdit e s =
     (let s1 = s\<lparr>editingExpense := Some e\<rparr>
      in case e_amount e of
           None \<Rightarrow> (s1, Some TypeError)
         | Some n \<Rightarrow>
             (s1\<lparr>formData := \<lparr>description = e_description e, amount = Number_toString n,
                               category = e_category e, date = e_date e\<rparr>,
                 showForm := True\<rparr>,
              None))"

definition handleDelete :: "env \<Rightarrow> string \<Rightarrow> app_state \<Rightarrow> app_state \<times> request list" where
  "handleDelete w expenseId s =
     (if \<not> confirm w then (s, [])
      else if accepts w (DELETE expenseId) then
        (let (s', rs) = loadAllData w s in (s', DELETE expenseId # rs))
      else (s\<lparr>error := msg_delete\<rparr>, [DELETE expenseId]))"

definition cancelForm :: "env \<Rightarrow> app_state \<Rightarrow> app_state" where
  "cancelForm w s =
     s\<lparr>showForm := False, editingExpense := None, formData := default_form w, error := []\<rparr>"

text \<open>The button of the header: \<open>onClick={() => setShowForm(true)}\<close>.\<close>

definition newExpense :: "app_state \<Rightarrow> app_state" where
  "newExpense s = s\<lparr>showForm := True\<rparr>"

subsection \<open>The component as a transition system\<close>

text \<open>
  The events a rendered component can receive: the effect run once after the first
  render, a change of one of the four inputs, the submission of the form, and the clicks
  on the buttons. A handler runs to its end before the next event is taken.
\<close>

datatype event =
    Mount
  | InputChange field string
  | Submit
  | Edit expense
  | Delete string
  | Cancel
  | NewExpense

fun step :: "env \<Rightarrow> event \<Rightarrow> app_state \<Rightarrow> app_state \<times> request list" where
  "step w Mount s = loadAllData w s"
| "step w (InputChange f v) s = (handleInputChange f v s, [])"
| "step w Submit s = handleSubmit w s"
| "step w (Edit e) s = (fst (handleEdit e s), [])"
| "step w (Delete i) s = handleDelete w i s"
| "step w Cancel s = (cancelForm w s, [])"
| "step w NewExpense s = (newExpense s, [])"

text \<open>The state after a sequence of events, each with the surroundings it meets.\<close>

fun run :: "(env \<times> event) list \<Rightarrow> app_state \<Rightarrow> app_state" where
  "run [] s = s"
| "run ((w, ev) # evs) s = run evs (fst (step w ev s))"

text \<open>
  The state of the form as the slots \<open>showForm\<close> and \<open>editingExpense\<close> hold it.
\<close>

datatype modal = Closed | OpenCreate | OpenEdit expense

definition modal_of :: "app_state \<Rightarrow> modal" where
  "modal_of s =
     (if showForm s then (case editingExpense s of None \<Rightarrow> OpenCreate | Some e \<Rightarrow> OpenEdit e)
      else Closed)"

text \<open>
  The modals that the \<open>return\<close> of the render holds, each with its title and the form
  data its inputs show. While \<open>loading\<close> the render returns the spinner and nothing
  else; otherwise it returns the page with the block \<open>{showForm && (...)}\<close>, titled by
  \<open>editingExpense ? ... : ...\<close>.
\<close>

definition modals :: "app_state \<Rightarrow> (string \<times> form_data) list" where
  "modals s =
     (if loading s then []
      else if showForm s then
        [(case editingExpense s of Some _ \<Rightarrow> ''Editar Despesa'' | None \<Rightarrow> ''Nova Despesa'',
          formData s)]
      else [])"

text \<open>An event whose record, if it is an edit action, has a numeric amount.\<close>

fun numeric_edit :: "event \<Rightarrow> bool" where
  "numeric_edit (Edit e) = (e_amount e \<noteq> None)"
| "numeric_edit _ = True"

text \<open>A submission that passes the test of the fields and whose request is fulfilled.\<close>

definition submit_succeeds :: "env \<Rightarrow> app_state \<Rightarrow> bool" where
  "submit_succeeds w s \<longleftrightarrow> \<not> invalid_form (formData s) \<and> accepts w (submit_request w s)"

text \<open>
  The transitions of the modal that its description lists: closed to open for creation on
  the new-expense action, closed to open for editing on the edit action, open to closed on
  cancel and on a successful submit. The last argument is the modal after the event.
\<close>

fun listed_transition :: "env \<Rightarrow> app_state \<Rightarrow> event \<Rightarrow> modal \<Rightarrow> bool" where
  "listed_transition w s NewExpense m = (modal_of s = Closed \<and> m = OpenCreate)"
| "listed_transition w s (Edit e) m = (modal_of s = Closed \<and> m = OpenEdit e)"
| "listed_transition w s Cancel m = (modal_of s \<noteq> Closed \<and> m = Closed)"
| "listed_transition w s Submit m = (modal_of s \<noteq> Closed \<and> submit_succeeds w s \<and> m = Closed)"
| "listed_transition w s Mount m = False"
| "listed_transition w s (InputChange f v) m = False"
| "listed_transition w s (Delete i) m = False"

fun is_DELETE :: "request \<Rightarrow> bool" where
  "is_DELETE (DELETE _) = True"
| "is_DELETE _ = False"

text \<open>The fetches that fail, in the order their answers arrive.\<close>

definition failures :: "env \<Rightarrow> fetch list" where
  "failures w = filter (failed w) (completion_order w)"

subsection \<open>Examples\<close>

definition lunch :: expense where
  "lunch = \<lparr>e_id = ''e1'', e_description = ''Lunch'', e_amount = Some (Finite False 255 2),
            e_category = ''Outros'', e_date = ''2025-01-15''\<rparr>"

definition lunch_form :: form_data where
  "lunch_form = \<lparr>description = ''Lunch'', amount = ''25.5'', category = ''Outros'',
                 date = ''2025-01-15''\<rparr>"

text \<open>A record that came without an amount.\<close>

definition broken :: expense where
  "broken = \<lparr>e_id = ''e2'', e_description = ''Bus'', e_amount = None,
             e_category = ''Transporte'', e_date = ''2025-01-16''\<rparr>"

text \<open>
  Surroundings in which the list of expenses cannot be read and everything else works;
  its conversion of literals is right on the one amount of the examples.
\<close>

definition example_env :: env where
  "example_env =
     \<lparr>get_expenses = None, get_categories = Some [''Outros'', ''Casa''],
      get_stats = Some \<lparr>total_expenses = Finite False 255 2, total_count = Finite False 1 1,
                        average_expense = Finite False 255 2,
                        monthly_total = Finite False 255 2\<rparr>,
      get_summaries = Some [\<lparr>cs_category = ''Outros'', cs_total = Finite False 255 2,
                             cs_count = Finite False 1 1, cs_percentage = Finite False 1 3\<rparr>],
      latency = (\<lambda>f. case f of Expenses \<Rightarrow> 3 | Categories \<Rightarrow> 1 | DashboardStats \<Rightarrow> 2
                        | CategorySummaries \<Rightarrow> 0),
      accepts = (\<lambda>r. True), today = ''2025-01-20'', confirm = True,
      StringNumericValue = (\<lambda>lit. Finite False 255 2)\<rparr>"

text \<open>The same, with every write refused, and with the confirmation declined.\<close>

definition refusing_env :: env where
  "refusing_env = example_env\<lparr>accepts := (\<lambda>r. False)\<rparr>"

definition declining_env :: env where
  "declining_env = example_env\<lparr>confirm := False\<rparr>"

text \<open>Surroundings in which every read works.\<close>

definition healthy_env :: env where
  "healthy_env = example_env\<lparr>get_expenses := Some [lunch]\<rparr>"

definition open_create_state :: app_state where
  "open_create_state = run [(healthy_env, Mount), (healthy_env, NewExpense)] (initial_state healthy_env)"

definition filled_state :: app_state where
  "filled_state = open_create_state\<lparr>formData := lunch_form\<rparr>"

section \<open>Properties\<close>

subsection \<open>Auxiliary facts\<close>

lemmas fetch_defs = fetchExpenses_def fetchCategories_def fetchDashboardStats_def
  fetchCategorySummaries_def

lemmas msg_defs = msg_expenses_def msg_categories_def msg_stats_def msg_summaries_def
  msg_required_def msg_update_def msg_create_def msg_delete_def

lemma msg_of_nonempty: "msg_of f \<noteq> []"
  by (cases f) (simp_all add: msg_defs)

lemma msg_of_inject: "msg_of f = msg_of g \<longleftrightarrow> f = g"
  by (cases f; cases g; simp add: msg_defs)

lemma on_response_frame:
  "loading (on_response w f s) = loading s"
  "showForm (on_response w f s) = showForm s"
  "editingExpense (on_response w f s) = editingExpense s"
  "formData (on_response w f s) = formData s"
  by (cases f; simp add: fetch_defs split: option.split)+

lemma fold_on_response_frame:
  "loading (fold (on_response w) fs s) = loading s"
  "showForm (fold (on_response w) fs s) = showForm s"
  "editingExpense (fold (on_response w) fs s) = editingExpense s"
  "formData (fold (on_response w) fs s) = formData s"
  by (induction fs arbitrary: s; simp add: on_response_frame del: on_response.simps)+

lemma on_response_expenses:
  "expenses (on_response w f s) =
     (if f = Expenses then (case get_expenses w of Some d \<Rightarrow> d | None \<Rightarrow> expenses s)
      else expenses s)"
  by (cases f; simp add: fetch_defs split: option.split)

lemma on_response_categories:
  "categories (on_response w f s) =
     (if f = Categories then (case get_categories w of Some d \<Rightarrow> d | None \<Rightarrow> categories s)
      else categories s)"
  by (cases f; simp add: fetch_defs split: option.split)

lemma on_response_dashboardStats:
  "dashboardStats (on_response w f s) =
     (if f = DashboardStats
      then (case get_stats w of Some d \<Rightarrow> Some d | None \<Rightarrow> dashboardStats s)
      else dashboardStats s)"
  by (cases f; simp add: fetch_defs split: option.split)

lemma on_response_categorySummaries:
  "categorySummaries (on_response w f s) =
     (if f = CategorySummaries
      then (case get_summaries w of Some d \<Rightarrow> d | None \<Rightarrow> categorySummaries s)
      else categorySummaries s)"
  by (cases f; simp add: fetch_defs split: option.split)

lemma on_response_error:
  "error (on_response w f s) = (if failed w f then msg_of f else error s)"
  by (cases f; simp add: fetch_defs split: option.split)

lemma fold_on_response_expenses:
  "expenses (fold (on_response w) fs s) =
     (if Expenses \<in> set fs then (case get_expenses w of Some d \<Rightarrow> d | None \<Rightarrow> expenses s)
      else expenses s)"
  by (induction fs arbitrary: s)
    (simp_all add: on_response_expenses split: option.split del: on_response.simps)

lemma fold_on_response_categories:
  "categories (fold (on_response w) fs s) =
     (if Categories \<in> set fs
      then (case get_categories w of Some d \<Rightarrow> d | None \<Rightarrow> categories s)
      else categories s)"
  by (induction fs arbitrary: s)
    (simp_all add: on_response_categories split: option.split del: on_response.simps)

lemma fold_on_response_dashboardStats:
  "dashboardStats (fold (on_response w) fs s) =
     (if DashboardStats \<in> set fs
      then (case get_stats w of Some d \<Rightarrow> Some d | None \<Rightarrow> dashboardStats s)
      else dashboardStats s)"
  by (induction fs arbitrary: s)
    (simp_all add: on_response_dashboardStats split: option.split del: on_response.simps)

lemma fold_on_response_categorySummaries:
  "categorySummaries (fold (on_response w) fs s) =
     (if CategorySummaries \<in> set fs
      then (case get_summaries w of Some d \<Rightarrow> d | None \<Rightarrow> categorySummaries s)
      else categorySummaries s)"
  by (induction fs arbitrary: s)
    (simp_all add: on_response_categorySummaries split: option.split del: on_response.simps)

lemma fold_on_response_error:
  "error (fold (on_response w) fs s) =
     (if filter (failed w) fs = [] then error s else msg_of (last (filter (failed w) fs)))"
proof (induction fs rule: rev_induct)
  case Nil
  then show ?case by simp
next
  case (snoc f fs)
  then show ?case by (simp add: on_response_error del: on_response.simps)
qed

lemma completion_order_all: "f \<in> set (completion_order w)"
  by (cases f) (simp_all add: completion_order_def all_fetches_def)

lemma failures_iff: "f \<in> set (failures w) \<longleftrightarrow> failed w f"
  by (simp add: failures_def completion_order_all)

lemma failures_Nil_iff: "failures w = [] \<longleftrightarrow> (\<forall>f. \<not> failed w f)"
  using failures_iff [of _ w] by (metis empty_iff empty_set last_in_set)

lemma last_failure_failed: "failures w \<noteq> [] \<Longrightarrow> failed w (last (failures w))"
  using failures_iff [of "last (failures w)" w] by simp

lemma read_requests_eq:
  "read_requests = [GET_expenses, GET_categories, GET_dashboard_stats, GET_dashboard_categories]"
  by (simp add: read_requests_def all_fetches_def)

lemma loadAllData_requests: "snd (loadAllData w s) = read_requests"
  by (simp add: loadAllData_def)

lemma loadAllData_frame:
  "showForm (fst (loadAllData w s)) = showForm s"
  "editingExpense (fst (loadAllData w s)) = editingExpense s"
  "formData (fst (loadAllData w s)) = formData s"
  "loading (fst (loadAllData w s)) = False"
  by (simp_all add: loadAllData_def fold_on_response_frame)

lemma loadAllData_error:
  "error (fst (loadAllData w s)) =
     (if failures w = [] then error s else msg_of (last (failures w)))"
  by (simp add: loadAllData_def fold_on_response_error failures_def)

lemma loadAllData_slots:
  "expenses (fst (loadAllData w s)) =
     (case get_expenses w of Some d \<Rightarrow> d | None \<Rightarrow> expenses s)"
  "categories (fst (loadAllData w s)) =
     (case get_categories w of Some d \<Rightarrow> d | None \<Rightarrow> categories s)"
  "dashboardStats (fst (loadAllData w s)) =
     (case get_stats w of Some d \<Rightarrow> Some d | None \<Rightarrow> dashboardStats s)"
  "categorySummaries (fst (loadAllData w s)) =
     (case get_summaries w of Some d \<Rightarrow> d | None \<Rightarrow> categorySummaries s)"
  by (simp_all add: loadAllData_def fold_on_response_expenses fold_on_response_categories
      fold_on_response_dashboardStats fold_on_response_categorySummaries completion_order_all
      split: option.split)

lemma loadAllData_error_nonempty:
  "error s \<noteq> [] \<Longrightarrow> error (fst (loadAllData w s)) \<noteq> []"
  by (simp add: loadAllData_error msg_of_nonempty)


lemma handleSubmit_invalid:
  "invalid_form (formData s) \<Longrightarrow> handleSubmit w s = (s\<lparr>error := msg_required\<rparr>, [])"
  by (simp add: handleSubmit_def)

lemma handleSubmit_accepted:
  "\<not> invalid_form (formData s) \<Longrightarrow> accepts w (submit_request w s) \<Longrightarrow>
   handleSubmit w s =
     (fst (loadAllData w (s\<lparr>formData := default_form w, showForm := False,
                             editingExpense := None, error := []\<rparr>)),
      submit_request w s # read_requests)"
  by (simp add: handleSubmit_def loadAllData_def)

lemma handleSubmit_refused:
  "\<not> invalid_form (formData s) \<Longrightarrow> \<not> accepts w (submit_request w s) \<Longrightarrow>
   handleSubmit w s =
     (s\<lparr>error := (case editingExpense s of Some _ \<Rightarrow> msg_update | None \<Rightarrow> msg_create)\<rparr>,
      [submit_request w s])"
  by (simp add: handleSubmit_def)

lemma handleSubmit_modal:
  "modal_of (fst (handleSubmit w s)) = (if submit_succeeds w s then Closed else modal_of s)"
proof (cases "invalid_form (formData s)")
  case True
  then show ?thesis
    by (simp add: handleSubmit_invalid submit_succeeds_def modal_of_def)
next
  case valid: False
  show ?thesis
  proof (cases "accepts w (submit_request w s)")
    case True
    with valid show ?thesis
      by (simp add: handleSubmit_accepted submit_succeeds_def modal_of_def loadAllData_frame)
  next
    case False
    with valid show ?thesis
      by (simp add: handleSubmit_refused submit_succeeds_def modal_of_def)
  qed
qed

lemma handleSubmit_error:
  "error (fst (handleSubmit w s)) =
     (if invalid_form (formData s) then msg_required
      else if accepts w (submit_request w s)
        then (if failures w = [] then [] else msg_of (last (failures w)))
      else (case editingExpense s of Some _ \<Rightarrow> msg_update | None \<Rightarrow> msg_create))"
  by (simp add: handleSubmit_invalid handleSubmit_accepted handleSubmit_refused
      loadAllData_error)

lemma handleDelete_cases:
  "handleDelete w i s =
     (if \<not> confirm w then (s, [])
      else if accepts w (DELETE i) then (fst (loadAllData w s), DELETE i # read_requests)
      else (s\<lparr>error := msg_delete\<rparr>, [DELETE i]))"
  by (simp add: handleDelete_def loadAllData_def)

lemma handleDelete_modal: "modal_of (fst (handleDelete w i s)) = modal_of s"
  by (simp add: handleDelete_cases modal_of_def loadAllData_frame)

lemmas example_defs = example_env_def refusing_env_def declining_env_def healthy_env_def
  lunch_def lunch_form_def

lemma open_create_state_simps:
  "showForm open_create_state"
  "editingExpense open_create_state = None"
  "formData open_create_state = default_form healthy_env"
  "error open_create_state = []"
  by (simp_all add: open_create_state_def initial_state_def loadAllData_frame newExpense_def
      loadAllData_error failures_def completion_order_def all_fetches_def example_defs)

lemma filled_state_simps:
  "showForm filled_state"
  "editingExpense filled_state = None"
  "formData filled_state = lunch_form"
  "error filled_state = []"
  "\<not> invalid_form (formData filled_state)"
  by (simp_all add: filled_state_def open_create_state_simps invalid_form_def lunch_form_def)

lemma example_failures:
  "failures example_env = [Expenses]"
  "failures refusing_env = [Expenses]"
  "failures healthy_env = []"
  by (simp_all add: failures_def completion_order_def all_fetches_def example_defs)

subsection \<open>Validation\<close>

text \<open>
  C1. When the description, the amount or the category of the form is empty,
  \<open>handleSubmit\<close> sets the validation message, which is not empty, and returns: it issues
  no request at all, and the form data, the flag of the form and the expense being edited
  are as before (so is every other slot but the error).
\<close>

theorem handleSubmit_rejects_empty_field:
  assumes "description (formData s) = [] \<or> amount (formData s) = [] \<or> category (formData s) = []"
  shows "snd (handleSubmit w s) = [] \<and>
         error (fst (handleSubmit w s)) = msg_required \<and> msg_required \<noteq> [] \<and>
         formData (fst (handleSubmit w s)) = formData s \<and>
         showForm (fst (handleSubmit w s)) = showForm s \<and>
         editingExpense (fst (handleSubmit w s)) = editingExpense s \<and>
         fst (handleSubmit w s) = s\<lparr>error := msg_required\<rparr>"
proof -
  from assms have "invalid_form (formData s)"
    by (simp add: invalid_form_def)
  then have "handleSubmit w s = (s\<lparr>error := msg_required\<rparr>, [])"
    by (rule handleSubmit_invalid)
  then show ?thesis
    by (simp add: msg_required_def)
qed

theorem handleSubmit_rejects_empty_field_witness:
  "amount (formData (filled_state\<lparr>formData := lunch_form\<lparr>amount := []\<rparr>\<rparr>)) = [] \<and>
   snd (handleSubmit example_env (filled_state\<lparr>formData := lunch_form\<lparr>amount := []\<rparr>\<rparr>)) = [] \<and>
   showForm (fst (handleSubmit example_env (filled_state\<lparr>formData := lunch_form\<lparr>amount := []\<rparr>\<rparr>)))"
  using handleSubmit_rejects_empty_field
    [of "filled_state\<lparr>formData := lunch_form\<lparr>amount := []\<rparr>\<rparr>" example_env]
  by (simp add: filled_state_def open_create_state_simps)

subsection \<open>Colours\<close>

lemma category_color_in_table:
  "map_of CATEGORY_COLORS label = Some c \<Longrightarrow> category_color label = Str c"
  by (auto simp: category_color_def get_property_def or_else_def CATEGORY_COLORS_def
      split: if_splits)

lemma category_color_fallback:
  "map_of CATEGORY_COLORS label = None \<Longrightarrow> label \<notin> set Object_prototype_names \<Longrightarrow>
   category_color label = Str ''#64748b''"
  by (simp add: category_color_def get_property_def or_else_def)

lemma render_sites_same_lookup:
  "doughnut_backgroundColor s = map (category_color \<circ> cs_category) (categorySummaries s) \<and>
   summary_dot_colors s = map (category_color \<circ> cs_category) (categorySummaries s) \<and>
   expense_badge_colors s = map (category_color \<circ> e_category) (expenses s)"
  by (simp add: doughnut_backgroundColor_def summary_dot_colors_def expense_badge_colors_def
      comp_def)

text \<open>
  C8. The label \<open>constructor\<close> is not a key of the table, and the colour computed for it
  is not the default gray: the property read finds the member that every object inherits
  under that name, which is truthy, so the fallback is not taken. A category summary with
  that label gets this value as its colour in the chart.
\<close>

theorem category_color_constructor:
  "map_of CATEGORY_COLORS ''constructor'' = None \<and>
   category_color ''constructor'' = Inherited ''constructor'' \<and>
   category_color ''constructor'' \<noteq> Str ''#64748b'' \<and>
   doughnut_backgroundColor
     (s\<lparr>categorySummaries := [\<lparr>cs_category = ''constructor'', cs_total = Finite False 1 2,
                                cs_count = Finite False 1 1, cs_percentage = Finite False 1 3\<rparr>]\<rparr>) =
     [Inherited ''constructor'']"
  by (simp add: doughnut_backgroundColor_def category_color_def get_property_def or_else_def
      CATEGORY_COLORS_def Object_prototype_names_def)

subsection \<open>Submitting\<close>

text \<open>
  C2. When the three required fields are filled and the request is fulfilled, the request
  is a POST of the form data with the parsed amount if no expense is being edited, and a
  PUT keyed by the identifier of the expense being edited otherwise. \<open>handleSubmit\<close> then
  resets the form data to the defaults (description, amount and category empty, the date
  today's), closes the form, forgets the expense being edited, empties the error message,
  and runs \<open>loadAllData\<close> on the state so obtained: the four read requests follow the
  write, the form slots keep their reset values through the reload, and the error after
  it is empty unless a read failed.
\<close>

theorem handleSubmit_success_resets_and_reloads:
  assumes "description (formData s) \<noteq> []" and "amount (formData s) \<noteq> []"
    and "category (formData s) \<noteq> []" and "accepts w (submit_request w s)"
  shows "(editingExpense s = None \<longrightarrow> submit_request w s = POST (expenseData w (formData s))) \<and>
         (\<forall>e. editingExpense s = Some e \<longrightarrow>
            submit_request w s = PUT (e_id e) (expenseData w (formData s))) \<and>
         handleSubmit w s =
           (fst (loadAllData w (s\<lparr>formData := default_form w, showForm := False,
                                   editingExpense := None, error := []\<rparr>)),
            submit_request w s # read_requests) \<and>
         formData (fst (handleSubmit w s)) =
           \<lparr>description = [], amount = [], category = [], date = today w\<rparr> \<and>
         \<not> showForm (fst (handleSubmit w s)) \<and>
         editingExpense (fst (handleSubmit w s)) = None \<and>
         error (fst (handleSubmit w s)) =
           (if failures w = [] then [] else msg_of (last (failures w)))"
proof -
  from assms have valid: "\<not> invalid_form (formData s)"
    by (simp add: invalid_form_def)
  have req: "(editingExpense s = None \<longrightarrow> submit_request w s = POST (expenseData w (formData s))) \<and>
      (\<forall>e. editingExpense s = Some e \<longrightarrow>
         submit_request w s = PUT (e_id e) (expenseData w (formData s)))"
    by (simp add: submit_request_def)
  have run: "handleSubmit w s =
      (fst (loadAllData w (s\<lparr>formData := default_form w, showForm := False,
                              editingExpense := None, error := []\<rparr>)),
       submit_request w s # read_requests)"
    using valid assms(4) by (rule handleSubmit_accepted)
  have after: "formData (fst (handleSubmit w s)) =
        \<lparr>description = [], amount = [], category = [], date = today w\<rparr>"
      "\<not> showForm (fst (handleSubmit w s))"
      "editingExpense (fst (handleSubmit w s)) = None"
    by (simp_all add: run loadAllData_frame default_form_def)
  have err: "error (fst (handleSubmit w s)) =
      (if failures w = [] then [] else msg_of (last (failures w)))"
    using valid assms(4) by (simp add: handleSubmit_error)
  from req run after err show ?thesis by blast
qed

theorem handleSubmit_success_resets_and_reloads_witness:
  "description (formData filled_state) \<noteq> [] \<and> amount (formData filled_state) \<noteq> [] \<and>
   category (formData filled_state) \<noteq> [] \<and>
   accepts healthy_env (submit_request healthy_env filled_state) \<and>
   snd (handleSubmit healthy_env filled_state) =
     [POST \<lparr>d_description = ''Lunch'', d_amount = Finite False 255 2, d_category = ''Outros'',
            d_date = ''2025-01-15''\<rparr>,
      GET_expenses, GET_categories, GET_dashboard_stats, GET_dashboard_categories] \<and>
   formData (fst (handleSubmit healthy_env filled_state)) =
     \<lparr>description = [], amount = [], category = [], date = ''2025-01-20''\<rparr> \<and>
   \<not> showForm (fst (handleSubmit healthy_env filled_state)) \<and>
   error (fst (handleSubmit healthy_env filled_state)) = []"
proof -
  have h: "description (formData filled_state) \<noteq> []" "amount (formData filled_state) \<noteq> []"
    "category (formData filled_state) \<noteq> []"
    "accepts healthy_env (submit_request healthy_env filled_state)"
    by (simp_all add: filled_state_simps lunch_form_def example_defs)
  have body: "expenseData healthy_env lunch_form =
      \<lparr>d_description = ''Lunch'', d_amount = Finite False 255 2, d_category = ''Outros'',
       d_date = ''2025-01-15''\<rparr>"
    by (simp add: expenseData_def parseFloat_def StrDecimalLiteral_prefix_def
        StrUnsignedDecimalLiteral_prefix_def isStrWhiteSpaceChar_def isDecimalDigit_def
        example_defs)
  note t = handleSubmit_success_resets_and_reloads [OF h]
  from t have "editingExpense filled_state = None \<longrightarrow>
      submit_request healthy_env filled_state = POST (expenseData healthy_env (formData filled_state))"
    by blast
  then have req: "submit_request healthy_env filled_state = POST (expenseData healthy_env lunch_form)"
    by (simp add: filled_state_simps)
  from t have "snd (handleSubmit healthy_env filled_state) =
      submit_request healthy_env filled_state # read_requests"
    by (elim conjE) simp
  then have reqs: "snd (handleSubmit healthy_env filled_state) =
     [POST \<lparr>d_description = ''Lunch'', d_amount = Finite False 255 2, d_category = ''Outros'',
            d_date = ''2025-01-15''\<rparr>,
      GET_expenses, GET_categories, GET_dashboard_stats, GET_dashboard_categories]"
    by (simp add: req body read_requests_eq)
  from t have "formData (fst (handleSubmit healthy_env filled_state)) =
     \<lparr>description = [], amount = [], category = [], date = today healthy_env\<rparr>"
    by blast
  then have form: "formData (fst (handleSubmit healthy_env filled_state)) =
     \<lparr>description = [], amount = [], category = [], date = ''2025-01-20''\<rparr>"
    by (simp add: example_defs)
  from t have closed: "\<not> showForm (fst (handleSubmit healthy_env filled_state))"
    by blast
  from t have "error (fst (handleSubmit healthy_env filled_state)) =
      (if failures healthy_env = [] then [] else msg_of (last (failures healthy_env)))"
    by blast
  then have err: "error (fst (handleSubmit healthy_env filled_state)) = []"
    by (simp add: example_failures)
  from h reqs form closed err show ?thesis by blast
qed

text \<open>
  C3. When the three required fields are filled and the request is refused,
  \<open>handleSubmit\<close> has issued that one request, sets the message of a failed update if an
  expense is being edited and the message of a failed creation otherwise (two different,
  non-empty messages), and changes nothing else: the form data, the flag of the form and
  the expense being edited are as before.
\<close>

theorem handleSubmit_failure_keeps_form:
  assumes "description (formData s) \<noteq> []" and "amount (formData s) \<noteq> []"
    and "category (formData s) \<noteq> []" and "\<not> accepts w (submit_request w s)"
  shows "snd (handleSubmit w s) = [submit_request w s] \<and>
         (editingExpense s = None \<longrightarrow> error (fst (handleSubmit w s)) = msg_create) \<and>
         (editingExpense s \<noteq> None \<longrightarrow> error (fst (handleSubmit w s)) = msg_update) \<and>
         msg_create \<noteq> msg_update \<and> msg_create \<noteq> [] \<and> msg_update \<noteq> [] \<and>
         formData (fst (handleSubmit w s)) = formData s \<and>
         showForm (fst (handleSubmit w s)) = showForm s \<and>
         editingExpense (fst (handleSubmit w s)) = editingExpense s \<and>
         fst (handleSubmit w s) = s\<lparr>error := error (fst (handleSubmit w s))\<rparr>"
proof -
  from assms have valid: "\<not> invalid_form (formData s)"
    by (simp add: invalid_form_def)
  have run: "handleSubmit w s =
      (s\<lparr>error := (case editingExpense s of Some _ \<Rightarrow> msg_update | None \<Rightarrow> msg_create)\<rparr>,
       [submit_request w s])"
    using valid assms(4) by (rule handleSubmit_refused)
  have msgs: "msg_create \<noteq> msg_update" "msg_create \<noteq> []" "msg_update \<noteq> []"
    by (simp_all add: msg_create_def msg_update_def)
  show ?thesis
    by (auto simp: run msgs)
qed

theorem handleSubmit_failure_keeps_form_witness:
  "description (formData filled_state) \<noteq> [] \<and> amount (formData filled_state) \<noteq> [] \<and>
   category (formData filled_state) \<noteq> [] \<and>
   \<not> accepts refusing_env (submit_request refusing_env filled_state) \<and>
   editingExpense filled_state = None \<and>
   error (fst (handleSubmit refusing_env filled_state)) = msg_create \<and>
   formData (fst (handleSubmit refusing_env filled_state)) = lunch_form \<and>
   showForm (fst (handleSubmit refusing_env filled_state))"
proof -
  have h: "description (formData filled_state) \<noteq> []" "amount (formData filled_state) \<noteq> []"
    "category (formData filled_state) \<noteq> []"
    "\<not> accepts refusing_env (submit_request refusing_env filled_state)"
    by (simp_all add: filled_state_simps lunch_form_def example_defs)
  note t = handleSubmit_failure_keeps_form [OF h]
  have create: "editingExpense filled_state = None"
    by (simp add: filled_state_simps)
  with t have err: "error (fst (handleSubmit refusing_env filled_state)) = msg_create"
    by blast
  from t have "formData (fst (handleSubmit refusing_env filled_state)) = formData filled_state"
    "showForm (fst (handleSubmit refusing_env filled_state)) = showForm filled_state"
    by blast+
  then have kept: "formData (fst (handleSubmit refusing_env filled_state)) = lunch_form"
    "showForm (fst (handleSubmit refusing_env filled_state))"
    by (simp_all add: filled_state_simps)
  from h create err kept show ?thesis by blast
qed

subsection \<open>Deleting\<close>

text \<open>
  C4. \<open>handleDelete\<close> issues a DELETE request exactly when the user confirms, and then
  exactly one, for the identifier given. Without confirmation it returns with no request
  and the state as it was. With confirmation, if the request is fulfilled it runs
  \<open>loadAllData\<close> (the four reads follow the DELETE); if the request is refused it sets the
  message of a failed deletion, which is not empty, and nothing else.
\<close>

theorem handleDelete_confirmed_once:
  "(DELETE i \<in> set (snd (handleDelete w i s)) \<longleftrightarrow> confirm w) \<and>
   filter is_DELETE (snd (handleDelete w i s)) = (if confirm w then [DELETE i] else []) \<and>
   (\<not> confirm w \<longrightarrow> handleDelete w i s = (s, [])) \<and>
   (confirm w \<and> accepts w (DELETE i) \<longrightarrow>
      handleDelete w i s = (fst (loadAllData w s), DELETE i # read_requests)) \<and>
   (confirm w \<and> \<not> accepts w (DELETE i) \<longrightarrow>
      handleDelete w i s = (s\<lparr>error := msg_delete\<rparr>, [DELETE i])) \<and>
   msg_delete \<noteq> []"
  by (simp add: handleDelete_cases read_requests_eq msg_delete_def)

theorem handleDelete_confirmed_once_witness:
  "\<not> confirm declining_env \<and> handleDelete declining_env ''e1'' filled_state = (filled_state, []) \<and>
   confirm refusing_env \<and> \<not> accepts refusing_env (DELETE ''e1'') \<and>
   handleDelete refusing_env ''e1'' filled_state = (filled_state\<lparr>error := msg_delete\<rparr>, [DELETE ''e1'']) \<and>
   confirm healthy_env \<and> accepts healthy_env (DELETE ''e1'') \<and>
   snd (handleDelete healthy_env ''e1'' filled_state) =
     [DELETE ''e1'', GET_expenses, GET_categories, GET_dashboard_stats, GET_dashboard_categories]"
proof -
  have h: "\<not> confirm declining_env" "confirm refusing_env"
    "\<not> accepts refusing_env (DELETE ''e1'')" "confirm healthy_env"
    "accepts healthy_env (DELETE ''e1'')"
    by (simp_all add: example_defs)
  from h handleDelete_confirmed_once [of "''e1''" declining_env filled_state]
  have a: "handleDelete declining_env ''e1'' filled_state = (filled_state, [])"
    by blast
  from h handleDelete_confirmed_once [of "''e1''" refusing_env filled_state]
  have b: "handleDelete refusing_env ''e1'' filled_state =
      (filled_state\<lparr>error := msg_delete\<rparr>, [DELETE ''e1''])"
    by blast
  from h handleDelete_confirmed_once [of "''e1''" healthy_env filled_state]
  have "handleDelete healthy_env ''e1'' filled_state =
      (fst (loadAllData healthy_env filled_state), DELETE ''e1'' # read_requests)"
    by blast
  then have c: "snd (handleDelete healthy_env ''e1'' filled_state) =
     [DELETE ''e1'', GET_expenses, GET_categories, GET_dashboard_stats, GET_dashboard_categories]"
    by (simp add: read_requests_eq)
  from h a b c show ?thesis by blast
qed

subsection \<open>Loading\<close>

text \<open>
  C5. \<open>loadAllData\<close> always issues the four read requests, and each slot is decided by
  its own answer alone: a slot whose read failed keeps the value it had, a slot whose read
  succeeded holds the data received, whatever happened to the other three. A fetch that
  fails sets its own message (the four messages are different and not empty) and touches
  no data slot. After the run the error is the message of one of the failed fetches; when
  exactly one fetch failed it is the message of that fetch.
\<close>

theorem loadAllData_fetches_independent:
  "snd (loadAllData w s) = read_requests \<and>
   (get_expenses w = None \<longrightarrow> expenses (fst (loadAllData w s)) = expenses s) \<and>
   (get_expenses w = Some d1 \<longrightarrow> expenses (fst (loadAllData w s)) = d1) \<and>
   (get_categories w = None \<longrightarrow> categories (fst (loadAllData w s)) = categories s) \<and>
   (get_categories w = Some d2 \<longrightarrow> categories (fst (loadAllData w s)) = d2) \<and>
   (get_stats w = None \<longrightarrow> dashboardStats (fst (loadAllData w s)) = dashboardStats s) \<and>
   (get_stats w = Some d3 \<longrightarrow> dashboardStats (fst (loadAllData w s)) = Some d3) \<and>
   (get_summaries w = None \<longrightarrow>
      categorySummaries (fst (loadAllData w s)) = categorySummaries s) \<and>
   (get_summaries w = Some d4 \<longrightarrow> categorySummaries (fst (loadAllData w s)) = d4) \<and>
   (failed w f \<longrightarrow>
      on_response w f t = t\<lparr>error := msg_of f\<rparr> \<and> msg_of f \<noteq> [] \<and>
      (\<forall>g. g \<noteq> f \<longrightarrow> msg_of g \<noteq> msg_of f)) \<and>
   (failed w f \<longrightarrow> (\<exists>g. failed w g \<and> error (fst (loadAllData w s)) = msg_of g)) \<and>
   (failed w f \<and> (\<forall>g. failed w g \<longrightarrow> g = f) \<longrightarrow> error (fst (loadAllData w s)) = msg_of f)"
proof -
  have slots: "(get_expenses w = None \<longrightarrow> expenses (fst (loadAllData w s)) = expenses s) \<and>
   (get_expenses w = Some d1 \<longrightarrow> expenses (fst (loadAllData w s)) = d1) \<and>
   (get_categories w = None \<longrightarrow> categories (fst (loadAllData w s)) = categories s) \<and>
   (get_categories w = Some d2 \<longrightarrow> categories (fst (loadAllData w s)) = d2) \<and>
   (get_stats w = None \<longrightarrow> dashboardStats (fst (loadAllData w s)) = dashboardStats s) \<and>
   (get_stats w = Some d3 \<longrightarrow> dashboardStats (fst (loadAllData w s)) = Some d3) \<and>
   (get_summaries w = None \<longrightarrow>
      categorySummaries (fst (loadAllData w s)) = categorySummaries s) \<and>
   (get_summaries w = Some d4 \<longrightarrow> categorySummaries (fst (loadAllData w s)) = d4)"
    by (simp add: loadAllData_slots)
  have own: "failed w f \<longrightarrow>
      on_response w f t = t\<lparr>error := msg_of f\<rparr> \<and> msg_of f \<noteq> [] \<and>
      (\<forall>g. g \<noteq> f \<longrightarrow> msg_of g \<noteq> msg_of f)"
  proof -
    have "on_response w f t = t\<lparr>error := msg_of f\<rparr>" if "failed w f"
      using that by (cases f) (simp_all add: fetch_defs)
    then show ?thesis
      by (simp add: msg_of_nonempty msg_of_inject)
  qed
  have some: "\<exists>g. failed w g \<and> error (fst (loadAllData w s)) = msg_of g" if "failed w f"
  proof -
    from that have ne: "failures w \<noteq> []"
      by (auto simp: failures_Nil_iff)
    then have "failed w (last (failures w))"
      by (rule last_failure_failed)
    moreover from ne have "error (fst (loadAllData w s)) = msg_of (last (failures w))"
      by (simp add: loadAllData_error)
    ultimately show ?thesis by blast
  qed
  have only: "error (fst (loadAllData w s)) = msg_of f"
    if "failed w f" and "\<forall>g. failed w g \<longrightarrow> g = f"
    using some [OF that(1)] that(2) by auto
  from loadAllData_requests [of w s] slots own some only show ?thesis
    by blast
qed

theorem loadAllData_fetches_independent_witness:
  "get_expenses example_env = None \<and> failed example_env Expenses \<and>
   get_categories example_env = Some [''Outros'', ''Casa''] \<and>
   expenses (fst (loadAllData example_env filled_state)) = expenses filled_state \<and>
   categories (fst (loadAllData example_env filled_state)) = [''Outros'', ''Casa''] \<and>
   error (fst (loadAllData example_env filled_state)) = msg_expenses"
proof -
  have h: "get_expenses example_env = None" "failed example_env Expenses"
    "get_categories example_env = Some [''Outros'', ''Casa'']"
    by (simp_all add: example_defs)
  have h': "\<forall>g. failed example_env g \<longrightarrow> g = Expenses"
  proof (intro allI impI)
    fix g assume "failed example_env g"
    then show "g = Expenses" by (cases g) (simp_all add: example_defs)
  qed
  note t = loadAllData_fetches_independent
    [of example_env filled_state _ "[''Outros'', ''Casa'']" _ _ Expenses]
  from h t have a: "expenses (fst (loadAllData example_env filled_state)) = expenses filled_state"
    by blast
  from h t have b: "categories (fst (loadAllData example_env filled_state)) = [''Outros'', ''Casa'']"
    by blast
  from h h' t have "error (fst (loadAllData example_env filled_state)) = msg_of Expenses"
    by blast
  then have c: "error (fst (loadAllData example_env filled_state)) = msg_expenses"
    by simp
  from h a b c show ?thesis by blast
qed

subsection \<open>Digits and the text of a number\<close>

lemma digit_char_props:
  assumes "d < 10"
  shows "isDecimalDigit (digit_char d)" and "digit_value (digit_char d) = d"
proof -
  from assms have "d \<in> {0, 1, 2, 3, 4, 5, 6, 7, 8, 9}" by auto
  then show "isDecimalDigit (digit_char d)" and "digit_value (digit_char d) = d"
    by (auto simp: digit_char_def isDecimalDigit_def digit_value_def)
qed

lemma digits_nonempty: "digits m \<noteq> []"
  by (subst digits.simps) simp

lemma digits_all_decimal: "c \<in> set (digits m) \<Longrightarrow> isDecimalDigit c"
proof (induction m arbitrary: c rule: digits.induct)
  case (1 m)
  show ?case
  proof (cases "m < 10")
    case True
    with "1.prems" show ?thesis
      by (subst (asm) digits.simps) (simp add: digit_char_props)
  next
    case False
    with "1.prems" have "c \<in> set (digits (m div 10)) \<or> c = digit_char (m mod 10)"
      by (subst (asm) digits.simps) auto
    with False "1.IH" show ?thesis
      by (auto simp: digit_char_props)
  qed
qed

lemma digits_value_snoc: "digits_value (cs @ [c]) = 10 * digits_value cs + digit_value c"
  by (simp add: digits_value_def)

lemma digits_value_digits: "digits_value (digits m) = m"
proof (induction m rule: digits.induct)
  case (1 m)
  show ?case
  proof (cases "m < 10")
    case True
    then show ?thesis
      by (subst digits.simps) (simp add: digits_value_def digit_char_props)
  next
    case False
    with "1.IH" have "digits_value (digits (m div 10)) = m div 10" by simp
    with False show ?thesis
      by (subst digits.simps) (simp add: digits_value_snoc digit_char_props)
  qed
qed

lemma digits_value_append:
  "digits_value (xs @ ys) = digits_value xs * 10 ^ length ys + digits_value ys"
proof (induction ys rule: rev_induct)
  case Nil
  then show ?case by (simp add: digits_value_def)
next
  case (snoc y ys)
  have "digits_value (xs @ ys @ [y]) = 10 * digits_value (xs @ ys) + digit_value y"
    using digits_value_snoc [of "xs @ ys" y] by simp
  then show ?case
    by (simp add: snoc.IH digits_value_snoc algebra_simps)
qed

lemma digits_value_zeros: "digits_value (replicate j (CHR ''0'')) = 0"
  by (induction j) (simp_all add: digits_value_def digit_value_def)

lemma digits_value_zeros_append:
  "digits_value (replicate j (CHR ''0'') @ cs) = digits_value cs"
  by (simp add: digits_value_append digits_value_zeros)

lemma not_decimal [simp]:
  "\<not> isDecimalDigit (CHR ''.'')" "\<not> isDecimalDigit (CHR ''e'')"
  "\<not> isDecimalDigit (CHR ''+'')" "\<not> isDecimalDigit (CHR ''-'')"
  by (simp_all add: isDecimalDigit_def)

lemma zero_decimal [simp]: "isDecimalDigit (CHR ''0'')"
  by (simp add: isDecimalDigit_def)

lemma takeWhile_digits [simp]:
  "takeWhile isDecimalDigit (digits m) = digits m"
  "dropWhile isDecimalDigit (digits m) = []"
  by (simp_all add: digits_all_decimal)

lemma takeWhile_digits_then:
  "\<not> isDecimalDigit c \<Longrightarrow> takeWhile isDecimalDigit (digits m @ c # r) = digits m"
  "\<not> isDecimalDigit c \<Longrightarrow> dropWhile isDecimalDigit (digits m @ c # r) = c # r"
  by (simp_all add: digits_all_decimal)

lemma digits_hd_tl: "hd (digits m) # tl (digits m) = digits m"
  by (simp add: digits_nonempty)

lemma hd_digits_decimal: "isDecimalDigit (hd (digits m))"
  using digits_all_decimal [of "hd (digits m)" m] by (simp add: digits_nonempty)

lemma exponent_value_text: "exponent_value (CHR ''e'' # exponent_text e) = e"
  by (simp add: exponent_value_def exponent_text_def digits_value_digits)

lemma ExponentPart_prefix_text:
  "ExponentPart_prefix (CHR ''e'' # exponent_text e) = CHR ''e'' # exponent_text e"
  by (simp add: ExponentPart_prefix_def exponent_text_def Let_def digits_nonempty)

lemma ExponentPart_prefix_Nil: "ExponentPart_prefix [] = []"
  by (simp add: ExponentPart_prefix_def)

lemma take_digits_decimal:
  "takeWhile isDecimalDigit (take j (digits m) @ CHR ''.'' # r) = take j (digits m)"
  "dropWhile isDecimalDigit (take j (digits m) @ CHR ''.'' # r) = CHR ''.'' # r"
  "takeWhile isDecimalDigit (drop j (digits m)) = drop j (digits m)"
  "dropWhile isDecimalDigit (drop j (digits m)) = []"
  "takeWhile isDecimalDigit (tl (digits m) @ CHR ''e'' # r) = tl (digits m)"
  "dropWhile isDecimalDigit (tl (digits m) @ CHR ''e'' # r) = CHR ''e'' # r"
  "takeWhile isDecimalDigit (replicate i (CHR ''0'') @ digits m) = replicate i (CHR ''0'') @ digits m"
  "dropWhile isDecimalDigit (replicate i (CHR ''0'') @ digits m) = []"
  "takeWhile isDecimalDigit (digits m @ replicate i (CHR ''0'')) = digits m @ replicate i (CHR ''0'')"
  "dropWhile isDecimalDigit (digits m @ replicate i (CHR ''0'')) = []"
proof -
  have a: "c \<in> set (take j (digits m)) \<Longrightarrow> isDecimalDigit c" for c
    by (auto dest: in_set_takeD digits_all_decimal)
  have b: "c \<in> set (drop j (digits m)) \<Longrightarrow> isDecimalDigit c" for c
    by (auto dest: in_set_dropD digits_all_decimal)
  have c: "c \<in> set (tl (digits m)) \<Longrightarrow> isDecimalDigit c" for c
    by (auto dest: list.set_sel(2) [rotated] digits_all_decimal simp: digits_nonempty)
  show "takeWhile isDecimalDigit (take j (digits m) @ CHR ''.'' # r) = take j (digits m)"
    "dropWhile isDecimalDigit (take j (digits m) @ CHR ''.'' # r) = CHR ''.'' # r"
    using a by simp_all
  show "takeWhile isDecimalDigit (drop j (digits m)) = drop j (digits m)"
    "dropWhile isDecimalDigit (drop j (digits m)) = []"
    using b by simp_all
  show "takeWhile isDecimalDigit (tl (digits m) @ CHR ''e'' # r) = tl (digits m)"
    "dropWhile isDecimalDigit (tl (digits m) @ CHR ''e'' # r) = CHR ''e'' # r"
    using c by simp_all
  show "takeWhile isDecimalDigit (replicate i (CHR ''0'') @ digits m) = replicate i (CHR ''0'') @ digits m"
    "dropWhile isDecimalDigit (replicate i (CHR ''0'') @ digits m) = []"
    "takeWhile isDecimalDigit (digits m @ replicate i (CHR ''0'')) = digits m @ replicate i (CHR ''0'')"
    "dropWhile isDecimalDigit (digits m @ replicate i (CHR ''0'')) = []"
    by (auto simp: digits_all_decimal)
qed

text \<open>The five shapes of the text of a positive number.\<close>

lemma positive_text_shapes:
  obtains
    (zeros) "int (length (digits s)) \<le> n" "n \<le> 21"
      "positive_text s n = digits s @ replicate (nat (n - int (length (digits s)))) (CHR ''0'')"
  | (point) "0 < n" "n < int (length (digits s))"
      "positive_text s n = take (nat n) (digits s) @ CHR ''.'' # drop (nat n) (digits s)"
  | (small) "n \<le> 0"
      "positive_text s n = CHR ''0'' # CHR ''.'' # replicate (nat (- n)) (CHR ''0'') @ digits s"
  | (exp1) "length (digits s) = 1"
      "positive_text s n = digits s @ CHR ''e'' # exponent_text (n - 1)"
  | (exp)
      "positive_text s n =
         hd (digits s) # CHR ''.'' # tl (digits s) @ CHR ''e'' # exponent_text (n - 1)"
  unfolding positive_text_def Let_def
  by (cases "int (length (digits s)) \<le> n \<and> n \<le> 21"; cases "0 < n \<and> n \<le> 21";
      cases "- 6 < n \<and> n \<le> 0"; cases "int (length (digits s)) = 1") auto

lemma length_digits_pos: "0 < length (digits m)"
  by (simp add: digits_nonempty)

lemma positive_text_hd: "positive_text s n \<noteq> [] \<and> isDecimalDigit (hd (positive_text s n))"
proof (cases rule: positive_text_shapes [of s n])
  case zeros
  then show ?thesis by (simp add: digits_nonempty hd_digits_decimal)
next
  case point
  then have "hd (positive_text s n) = hd (digits s)" "positive_text s n \<noteq> []"
    by (simp_all add: hd_append digits_nonempty)
  then show ?thesis by (simp add: hd_digits_decimal)
next
  case small
  then show ?thesis by simp
next
  case exp1
  then show ?thesis by (simp add: digits_nonempty hd_digits_decimal)
next
  case exp
  then show ?thesis by (simp add: hd_digits_decimal)
qed

lemma decimal_not_Infinity:
  "u \<noteq> [] \<Longrightarrow> isDecimalDigit (hd u) \<Longrightarrow> take 8 u \<noteq> ''Infinity''"
  by (cases u) (auto simp: isDecimalDigit_def)

lemma decimal_not_sign:
  "isDecimalDigit c \<Longrightarrow> c \<noteq> CHR ''+'' \<and> c \<noteq> CHR ''-''"
  by (auto simp: isDecimalDigit_def)

lemma positive_text_literal:
  "StrUnsignedDecimalLiteral_prefix (positive_text s n) = Some (positive_text s n)"
proof -
  have inf: "take 8 (positive_text s n) \<noteq> ''Infinity''"
    using positive_text_hd [of s n] by (simp add: decimal_not_Infinity)
  show ?thesis
  proof (cases rule: positive_text_shapes [of s n])
    case zeros
    with inf show ?thesis
      by (simp add: StrUnsignedDecimalLiteral_prefix_def take_digits_decimal digits_nonempty)
  next
    case point
    with inf show ?thesis
      by (simp add: StrUnsignedDecimalLiteral_prefix_def take_digits_decimal
          ExponentPart_prefix_Nil Let_def digits_nonempty)
  next
    case small
    with inf show ?thesis
      by (simp add: StrUnsignedDecimalLiteral_prefix_def take_digits_decimal
          ExponentPart_prefix_Nil Let_def digits_nonempty)
  next
    case exp1
    with inf show ?thesis
      by (simp add: StrUnsignedDecimalLiteral_prefix_def takeWhile_digits_then
          ExponentPart_prefix_text Let_def digits_nonempty)
  next
    case exp
    with inf hd_digits_decimal [of s] show ?thesis
      by (simp add: StrUnsignedDecimalLiteral_prefix_def take_digits_decimal
          ExponentPart_prefix_text Let_def)
  qed
qed

lemma digits_value_take_drop:
  "digits_value (take j (digits m) @ drop j (digits m)) = m"
  by (simp add: digits_value_digits)

lemma value_Nil [simp]: "digits_value [] = 0" "exponent_value [] = 0"
  by (simp_all add: digits_value_def exponent_value_def)

lemma of_nat_times_power:
  "0 \<le> e \<Longrightarrow> (of_nat (m * 10 ^ nat e) :: rat) = of_nat m * 10 powi e"
  by (simp add: power_int_def)

lemma positive_text_MV:
  "unsigned_MV (positive_text s n) = of_nat s * 10 powi (n - int (length (digits s)))"
proof (cases rule: positive_text_shapes [of s n])
  case zeros
  then show ?thesis
    by (simp add: unsigned_MV_def take_digits_decimal digits_value_append digits_value_zeros
        digits_value_digits power_int_def)
next
  case point
  then have len: "int (length (drop (nat n) (digits s))) = int (length (digits s)) - n"
    by simp
  from point show ?thesis
    by (simp add: unsigned_MV_def take_digits_decimal digits_value_digits exponent_value_def
        Let_def len del: length_drop)
next
  case small
  have val: "digits_value (CHR ''0'' # replicate (nat (- n)) (CHR ''0'') @ digits s) = s"
    using digits_value_zeros_append [of "Suc (nat (- n))" "digits s"]
    by (simp add: digits_value_digits)
  from small have len: "- int (length (replicate (nat (- n)) (CHR ''0'') @ digits s)) =
      n - int (length (digits s))"
    by simp
  from small show ?thesis
    by (simp add: unsigned_MV_def take_digits_decimal exponent_value_def Let_def val len
        del: length_append length_replicate)
next
  case exp1
  then show ?thesis
    by (simp add: unsigned_MV_def takeWhile_digits_then exponent_value_text Let_def
        digits_value_digits)
next
  case exp
  have val: "digits_value (hd (digits s) # tl (digits s)) = s"
    by (simp add: digits_hd_tl digits_value_digits)
  have len: "n - 1 - int (length (tl (digits s))) = n - int (length (digits s))"
    using length_digits_pos [of s] by (cases "digits s") simp_all
  from exp hd_digits_decimal [of s] show ?thesis
    by (simp add: unsigned_MV_def take_digits_decimal exponent_value_text Let_def val len
        del: length_tl)
qed

lemma Number_toString_nonempty: "Number_toString x \<noteq> []"
  using positive_text_hd by (cases x) (simp_all add: Number_toString_def)

lemma Number_toString_literal:
  assumes "x \<noteq> NaN"
  shows "StrDecimalLiteral_prefix (Number_toString x) = Some (Number_toString x)"
proof (cases x)
  case NaN
  with assms show ?thesis by simp
next
  case (Infinity neg)
  then show ?thesis
    by (simp add: Number_toString_def StrDecimalLiteral_prefix_def
        StrUnsignedDecimalLiteral_prefix_def)
next
  case (Zero neg)
  then show ?thesis
    by (simp add: Number_toString_def StrDecimalLiteral_prefix_def
        StrUnsignedDecimalLiteral_prefix_def isDecimalDigit_def)
next
  case (Finite neg s n)
  obtain c r where shape: "positive_text s n = c # r" and c: "isDecimalDigit c"
    using positive_text_hd [of s n] by (cases "positive_text s n") auto
  from c have "c \<noteq> CHR ''+''" "c \<noteq> CHR ''-''"
    by (simp_all add: decimal_not_sign)
  then have "StrDecimalLiteral_prefix (positive_text s n) = Some (positive_text s n)"
    using positive_text_literal [of s n] by (simp add: StrDecimalLiteral_prefix_def shape)
  moreover have "StrDecimalLiteral_prefix (CHR ''-'' # positive_text s n) =
      Some (CHR ''-'' # positive_text s n)"
    by (simp add: StrDecimalLiteral_prefix_def positive_text_literal)
  ultimately show ?thesis
    using Finite by (simp add: Number_toString_def)
qed

lemma Number_toString_MV:
  assumes "decimal_value x = Some q"
  shows "MV (Number_toString x) = q"
proof (cases x)
  case NaN
  with assms show ?thesis by simp
next
  case (Infinity neg)
  with assms show ?thesis by simp
next
  case (Zero neg)
  with assms show ?thesis
    by (simp add: Number_toString_def MV_def unsigned_MV_def isDecimalDigit_def
        digits_value_def digit_value_def)
next
  case (Finite neg s n)
  obtain c r where shape: "positive_text s n = c # r" and c: "isDecimalDigit c"
    using positive_text_hd [of s n] by (cases "positive_text s n") auto
  from c have "c \<noteq> CHR ''+''" "c \<noteq> CHR ''-''"
    by (simp_all add: decimal_not_sign)
  then have "MV (positive_text s n) = unsigned_MV (positive_text s n)"
    by (simp add: MV_def shape)
  moreover have "MV (CHR ''-'' # positive_text s n) = - unsigned_MV (positive_text s n)"
    by (simp add: MV_def)
  ultimately show ?thesis
    using Finite assms by (auto simp: Number_toString_def positive_text_MV)
qed

lemma Number_toString_no_space:
  "dropWhile isStrWhiteSpaceChar (Number_toString x) = Number_toString x"
proof -
  have "\<not> isStrWhiteSpaceChar (hd (Number_toString x))"
  proof (cases x)
    case (Finite neg s n)
    have "\<not> isStrWhiteSpaceChar c" if "isDecimalDigit c" for c
      using that by (auto simp: isDecimalDigit_def isStrWhiteSpaceChar_def)
    with positive_text_hd [of s n] have "\<not> isStrWhiteSpaceChar (hd (positive_text s n))"
      by blast
    with Finite show ?thesis
      by (simp add: Number_toString_def isStrWhiteSpaceChar_def)
  qed (simp_all add: Number_toString_def isStrWhiteSpaceChar_def)
  then show ?thesis
    using Number_toString_nonempty [of x] by (cases "Number_toString x") simp_all
qed

lemma parseFloat_Number_toString:
  "parseFloat w (Number_toString x) =
     (if x = NaN then NaN else StringNumericValue w (Number_toString x))"
proof (cases "x = NaN")
  case True
  then show ?thesis
    by (simp add: parseFloat_def Number_toString_def StrDecimalLiteral_prefix_def
        StrUnsignedDecimalLiteral_prefix_def isStrWhiteSpaceChar_def isDecimalDigit_def)
next
  case False
  then show ?thesis
    by (simp add: parseFloat_def Number_toString_no_space Number_toString_literal)
qed

lemma scaled_eq_le:
  fixes s t :: nat and a b :: int
  assumes le: "a \<le> b" and eq: "of_nat s * (10::rat) powi a = of_nat t * 10 powi b"
    and s: "\<not> 10 dvd s"
  shows "a = b \<and> s = t"
proof -
  define d where "d = nat (b - a)"
  from le have b: "b = a + int d" by (simp add: d_def)
  have "(10::rat) powi b = 10 powi a * 10 ^ d"
    unfolding b by (simp add: power_int_add)
  with eq have "of_nat s * (10::rat) powi a = of_nat (t * 10 ^ d) * 10 powi a"
    by simp
  then have "(of_nat s :: rat) = of_nat (t * 10 ^ d)"
    by simp
  then have st: "s = t * 10 ^ d"
    by (simp only: of_nat_eq_iff)
  have "d = 0"
  proof (rule ccontr)
    assume "d \<noteq> 0"
    then obtain d' where "d = Suc d'" by (cases d) auto
    with st have "10 dvd s" by simp
    with s show False by contradiction
  qed
  with st b show ?thesis by simp
qed

lemma scaled_eq:
  fixes s t :: nat and a b :: int
  assumes "of_nat s * (10::rat) powi a = of_nat t * 10 powi b"
    and "\<not> 10 dvd s" and "\<not> 10 dvd t"
  shows "a = b \<and> s = t"
proof (cases "a \<le> b")
  case True
  with assms show ?thesis by (simp add: scaled_eq_le)
next
  case False
  then have "b \<le> a" by simp
  with assms scaled_eq_le [of b a t s] show ?thesis by simp
qed

lemma decimal_value_inject:
  assumes "canonical x" and "canonical y"
    and "decimal_value x = Some q" and "decimal_value y = Some q"
  shows "x = y \<or> (\<exists>a b. x = Zero a \<and> y = Zero b)"
proof -
  have pos: "0 < of_nat s * (10::rat) powi a" if "0 < s" for s :: nat and a :: int
    using that by simp
  have fin: "a = b \<and> s = t \<and> n = m"
    if "canonical (Finite a s n)" "canonical (Finite b t m)"
      "decimal_value (Finite a s n) = decimal_value (Finite b t m)" for a b s t n m
  proof -
    let ?p = "of_nat s * (10::rat) powi (n - int (length (digits s)))"
    let ?q = "of_nat t * (10::rat) powi (m - int (length (digits t)))"
    from that have p: "0 < ?p" and q: "0 < ?q" by simp_all
    from that(3) have eq: "(if a then - 1 else 1) * ?p = (if b then - 1 else 1) * ?q"
      by (simp add: mult.assoc)
    have ab: "a = b"
    proof (rule ccontr)
      assume "a \<noteq> b"
      with eq have "?p = - ?q \<or> - ?p = ?q" by (cases a; cases b) simp_all
      with p q show False by linarith
    qed
    with eq have "?p = ?q" by (cases b) simp_all
    with that(1,2) have "n - int (length (digits s)) = m - int (length (digits t)) \<and> s = t"
      by (intro scaled_eq) simp_all
    with ab show ?thesis by auto
  qed
  show ?thesis
  proof (cases x)
    case NaN
    with assms show ?thesis by simp
  next
    case (Infinity neg)
    with assms show ?thesis by simp
  next
    case x: (Zero neg)
    show ?thesis
    proof (cases y)
      case (Finite b t m)
      with assms x pos [of t "m - int (length (digits t))"] show ?thesis
        by (cases b) auto
    qed (use assms x in simp_all)
  next
    case x: (Finite a s n)
    show ?thesis
    proof (cases y)
      case (Zero neg)
      with assms x pos [of s "n - int (length (digits s))"] show ?thesis
        by (cases a) auto
    next
      case (Finite b t m)
      with assms x fin [of a s n b t m] show ?thesis by simp
    qed (use assms x in simp_all)
  qed
qed

lemma Number_toString_inject:
  assumes "canonical x" and "canonical y" and "Number_toString x = Number_toString y"
  shows "x = y \<or> (\<exists>a b. x = Zero a \<and> y = Zero b)"
proof (cases "decimal_value x")
  case (Some q)
  then have mv: "MV (Number_toString y) = q"
    using Number_toString_MV [of x q] assms(3) by simp
  have "decimal_value y = Some q"
  proof (cases "decimal_value y")
    case (Some q')
    with mv Number_toString_MV [of y q'] show ?thesis by simp
  next
    case None
    then have y: "y = NaN \<or> (\<exists>neg. y = Infinity neg)"
      by (cases y) simp_all
    from Some have "x \<noteq> NaN" by auto
    then have "StrDecimalLiteral_prefix (Number_toString y) = Some (Number_toString y)"
      using Number_toString_literal [of x] assms(3) by simp
    with y have inf: "\<exists>neg. y = Infinity neg"
      by (auto simp: Number_toString_def StrDecimalLiteral_prefix_def
          StrUnsignedDecimalLiteral_prefix_def isDecimalDigit_def)
    have "hd (Number_toString x) \<noteq> CHR ''I'' \<and> take 2 (Number_toString x) \<noteq> ''-I''"
    proof (cases x)
      case (Finite a s n)
      obtain c r where shape: "positive_text s n = c # r" and c: "isDecimalDigit c"
        using positive_text_hd [of s n] by (cases "positive_text s n") auto
      with Finite show ?thesis
        by (auto simp: Number_toString_def isDecimalDigit_def)
    qed (use Some in \<open>simp_all add: Number_toString_def\<close>)
    with inf assms(3) show ?thesis
      by (auto simp: Number_toString_def split: if_splits)
  qed
  with assms(1,2) Some show ?thesis by (rule decimal_value_inject)
next
  case None
  then have x: "x = NaN \<or> (\<exists>neg. x = Infinity neg)"
    by (cases x) simp_all
  have other: "hd (Number_toString y) \<noteq> CHR ''I'' \<and> take 2 (Number_toString y) \<noteq> ''-I'' \<and>
      hd (Number_toString y) \<noteq> CHR ''N''"
    if "decimal_value y \<noteq> None"
  proof (cases y)
    case (Finite a s n)
    obtain c r where shape: "positive_text s n = c # r" and c: "isDecimalDigit c"
      using positive_text_hd [of s n] by (cases "positive_text s n") auto
    with Finite show ?thesis
      by (auto simp: Number_toString_def isDecimalDigit_def)
  qed (use that in \<open>simp_all add: Number_toString_def\<close>)
  show ?thesis
  proof (cases "decimal_value y")
    case None
    then have "y = NaN \<or> (\<exists>neg. y = Infinity neg)"
      by (cases y) simp_all
    with x assms(3) show ?thesis
      by (auto simp: Number_toString_def split: if_splits)
  next
    case (Some q)
    with other have "hd (Number_toString y) \<noteq> CHR ''I'' \<and> take 2 (Number_toString y) \<noteq> ''-I'' \<and>
      hd (Number_toString y) \<noteq> CHR ''N''" by simp
    with x assms(3) show ?thesis
      by (auto simp: Number_toString_def split: if_splits)
  qed
qed

subsection \<open>Editing\<close>

lemma handleEdit_numeric:
  "e_amount e = Some x \<Longrightarrow>
   handleEdit e s =
     (s\<lparr>editingExpense := Some e,
        formData := \<lparr>description = e_description e, amount = Number_toString x,
                     category = e_category e, date = e_date e\<rparr>,
        showForm := True\<rparr>,
      None)"
  by (simp add: handleEdit_def)

lemma handleEdit_without_amount:
  "e_amount e = None \<Longrightarrow> handleEdit e s = (s\<lparr>editingExpense := Some e\<rparr>, Some TypeError)"
  by (simp add: handleEdit_def)

text \<open>
  C7. For every expense record whose amount is a number, \<open>handleEdit\<close> returns without
  throwing; it makes that record the expense being edited, fills the form with the
  description, the category and the date of the record as they are and with the text that
  \<open>toString\<close> gives for the amount, and opens the form; it changes no other slot. That text
  is the string representation of the amount: it is not empty; unless the amount is NaN
  it is as a whole a decimal literal, so \<open>parseFloat\<close> reads back the number value of
  the entire text; for a zero or finite amount the mathematical value of the text is the
  decimal that identifies the amount; and an amount with the same text is the same
  number, or both are zeros.
\<close>

theorem handleEdit_prefills_form:
  assumes "e_amount e = Some x"
  shows "snd (handleEdit e s) = None \<and>
         editingExpense (fst (handleEdit e s)) = Some e \<and>
         description (formData (fst (handleEdit e s))) = e_description e \<and>
         category (formData (fst (handleEdit e s))) = e_category e \<and>
         date (formData (fst (handleEdit e s))) = e_date e \<and>
         amount (formData (fst (handleEdit e s))) = Number_toString x \<and>
         showForm (fst (handleEdit e s)) \<and>
         fst (handleEdit e s) =
           s\<lparr>editingExpense := Some e, formData := formData (fst (handleEdit e s)),
              showForm := True\<rparr> \<and>
         step w (Edit e) s = (fst (handleEdit e s), []) \<and>
         Number_toString x \<noteq> [] \<and>
         (x \<noteq> NaN \<longrightarrow>
            StrDecimalLiteral_prefix (Number_toString x) = Some (Number_toString x) \<and>
            parseFloat w (Number_toString x) = StringNumericValue w (Number_toString x)) \<and>
         (\<forall>q. decimal_value x = Some q \<longrightarrow> MV (Number_toString x) = q) \<and>
         (\<forall>y. canonical x \<and> canonical y \<and> Number_toString y = Number_toString x \<longrightarrow>
              y = x \<or> (\<exists>a b. y = Zero a \<and> x = Zero b))"
proof -
  have slots: "snd (handleEdit e s) = None \<and>
         editingExpense (fst (handleEdit e s)) = Some e \<and>
         description (formData (fst (handleEdit e s))) = e_description e \<and>
         category (formData (fst (handleEdit e s))) = e_category e \<and>
         date (formData (fst (handleEdit e s))) = e_date e \<and>
         amount (formData (fst (handleEdit e s))) = Number_toString x \<and>
         showForm (fst (handleEdit e s)) \<and>
         fst (handleEdit e s) =
           s\<lparr>editingExpense := Some e, formData := formData (fst (handleEdit e s)),
              showForm := True\<rparr> \<and>
         step w (Edit e) s = (fst (handleEdit e s), [])"
    using assms by (simp add: handleEdit_numeric)
  have lit: "x \<noteq> NaN \<longrightarrow>
            StrDecimalLiteral_prefix (Number_toString x) = Some (Number_toString x) \<and>
            parseFloat w (Number_toString x) = StringNumericValue w (Number_toString x)"
    by (simp add: Number_toString_literal parseFloat_Number_toString)
  have mv: "\<forall>q. decimal_value x = Some q \<longrightarrow> MV (Number_toString x) = q"
    by (simp add: Number_toString_MV)
  have inj: "\<forall>y. canonical x \<and> canonical y \<and> Number_toString y = Number_toString x \<longrightarrow>
              y = x \<or> (\<exists>a b. y = Zero a \<and> x = Zero b)"
    using Number_toString_inject by blast
  from slots Number_toString_nonempty [of x] lit mv inj show ?thesis
    by blast
qed

lemma Number_toString_examples:
  "Number_toString (Finite False 255 2) = ''25.5''"
  "Number_toString (Finite False 1 3) = ''100''"
  "Number_toString (Finite True 1 (- 2)) = ''-0.001''"
  "Number_toString (Finite False 1 22) = ''1e+21''"
  "Number_toString (Finite False 15 (- 6)) = ''1.5e-7''"
  by (simp_all add: Number_toString_def positive_text_def exponent_text_def digits.simps
      digit_char_def numeral_2_eq_2)

theorem handleEdit_prefills_form_witness:
  "e_amount lunch = Some (Finite False 255 2) \<and>
   snd (handleEdit lunch open_create_state) = None \<and>
   editingExpense (fst (handleEdit lunch open_create_state)) = Some lunch \<and>
   description (formData (fst (handleEdit lunch open_create_state))) = ''Lunch'' \<and>
   amount (formData (fst (handleEdit lunch open_create_state))) = ''25.5'' \<and>
   showForm (fst (handleEdit lunch open_create_state)) \<and>
   decimal_value (Finite False 255 2) = Some (51 / 2) \<and>
   MV ''25.5'' = 51 / 2"
proof -
  have h: "e_amount lunch = Some (Finite False 255 2)"
    by (simp add: lunch_def)
  note t = handleEdit_prefills_form [OF h, of open_create_state example_env]
  have d: "e_description lunch = ''Lunch''"
    by (simp add: lunch_def)
  have v: "decimal_value (Finite False 255 2) = Some (51 / 2)"
    by (simp add: digits.simps power_int_def)
  from t have a: "snd (handleEdit lunch open_create_state) = None"
    "editingExpense (fst (handleEdit lunch open_create_state)) = Some lunch"
    "showForm (fst (handleEdit lunch open_create_state))"
    by blast+
  from t have "description (formData (fst (handleEdit lunch open_create_state))) = e_description lunch"
    by blast
  with d have b: "description (formData (fst (handleEdit lunch open_create_state))) = ''Lunch''"
    by simp
  from t have "amount (formData (fst (handleEdit lunch open_create_state))) =
      Number_toString (Finite False 255 2)"
    by blast
  then have c: "amount (formData (fst (handleEdit lunch open_create_state))) = ''25.5''"
    by (simp add: Number_toString_examples)
  from t v have "MV (Number_toString (Finite False 255 2)) = 51 / 2"
    by blast
  then have m: "MV ''25.5'' = 51 / 2"
    by (simp add: Number_toString_examples)
  from h a b c v m show ?thesis by blast
qed

subsection \<open>The error message\<close>

lemma step_error_cleared:
  assumes "error s \<noteq> []" and "error (fst (step w ev s)) = []"
  shows "ev = Cancel \<or> ev = Submit \<and> submit_succeeds w s"
proof (cases ev)
  case Mount
  with assms show ?thesis
    by (simp add: loadAllData_error msg_of_nonempty split: if_splits)
next
  case (InputChange f v)
  with assms show ?thesis by (cases f) simp_all
next
  case Submit
  with assms show ?thesis
    by (auto simp: handleSubmit_error submit_succeeds_def msg_defs
        split: if_splits option.splits)
next
  case (Edit e)
  with assms show ?thesis by (simp add: handleEdit_def Let_def split: option.splits)
next
  case (Delete i)
  with assms show ?thesis
    by (simp add: handleDelete_cases loadAllData_error msg_of_nonempty msg_delete_def
        split: if_splits)
next
  case Cancel
  then show ?thesis by simp
next
  case NewExpense
  with assms show ?thesis by (simp add: newExpense_def)
qed

text \<open>
  C9. There is one error slot. A fetch that succeeds leaves it as it is and a fetch that
  fails overwrites it with its message, so after \<open>loadAllData\<close> it holds the message of
  the failure that arrived last, or its old value if no fetch failed: a load never
  empties it. An event that finds the error non-empty and leaves it empty is a cancel or
  a successful submit; cancelling always empties it, and a successful submit empties it
  before reloading.
\<close>

theorem error_slot_only_reset_by_submit_or_cancel:
  "(\<not> failed w f \<longrightarrow> error (on_response w f t) = error t) \<and>
   (failed w f \<longrightarrow> error (on_response w f t) = msg_of f \<and> msg_of f \<noteq> []) \<and>
   error (fst (loadAllData w s)) =
     (if failures w = [] then error s else msg_of (last (failures w))) \<and>
   (error s \<noteq> [] \<longrightarrow> error (fst (loadAllData w s)) \<noteq> []) \<and>
   (error s \<noteq> [] \<and> error (fst (step w ev s)) = [] \<longrightarrow>
      ev = Cancel \<or> ev = Submit \<and> submit_succeeds w s) \<and>
   error (fst (step w Cancel s)) = [] \<and>
   (submit_succeeds w s \<longrightarrow>
      error (fst (step w Submit s)) =
        error (fst (loadAllData w (s\<lparr>formData := default_form w, showForm := False,
                                      editingExpense := None, error := []\<rparr>))) \<and>
      (failures w = [] \<longrightarrow> error (fst (step w Submit s)) = []))"
proof -
  have a: "(\<not> failed w f \<longrightarrow> error (on_response w f t) = error t) \<and>
      (failed w f \<longrightarrow> error (on_response w f t) = msg_of f \<and> msg_of f \<noteq> [])"
    by (simp add: on_response_error msg_of_nonempty)
  have b: "error s \<noteq> [] \<longrightarrow> error (fst (loadAllData w s)) \<noteq> []"
    by (simp add: loadAllData_error_nonempty)
  have c: "error s \<noteq> [] \<and> error (fst (step w ev s)) = [] \<longrightarrow>
      ev = Cancel \<or> ev = Submit \<and> submit_succeeds w s"
    using step_error_cleared [of s w ev] by blast
  have d: "error (fst (step w Cancel s)) = []"
    by (simp add: cancelForm_def)
  have e: "submit_succeeds w s \<longrightarrow>
      error (fst (step w Submit s)) =
        error (fst (loadAllData w (s\<lparr>formData := default_form w, showForm := False,
                                      editingExpense := None, error := []\<rparr>))) \<and>
      (failures w = [] \<longrightarrow> error (fst (step w Submit s)) = [])"
    by (simp add: submit_succeeds_def handleSubmit_accepted loadAllData_error)
  from a loadAllData_error [of w s] b c d e show ?thesis by blast
qed

theorem error_slot_only_reset_by_submit_or_cancel_witness:
  "\<not> failed example_env Categories \<and> failed example_env Expenses \<and>
   failures example_env \<noteq> [] \<and>
   error (fst (loadAllData example_env filled_state)) = msg_expenses \<and>
   error (filled_state\<lparr>error := msg_delete\<rparr>) \<noteq> [] \<and>
   error (fst (loadAllData healthy_env (filled_state\<lparr>error := msg_delete\<rparr>))) = msg_delete \<and>
   submit_succeeds healthy_env (filled_state\<lparr>error := msg_delete\<rparr>) \<and>
   error (fst (step healthy_env Submit (filled_state\<lparr>error := msg_delete\<rparr>))) = []"
proof -
  have h1: "\<not> failed example_env Categories" "failed example_env Expenses"
    "submit_succeeds healthy_env (filled_state\<lparr>error := msg_delete\<rparr>)"
    by (simp_all add: submit_succeeds_def filled_state_simps invalid_form_def example_defs)
  have h2: "failures example_env \<noteq> []" "error (filled_state\<lparr>error := msg_delete\<rparr>) \<noteq> []"
    "failures healthy_env = []"
    by (simp_all add: example_failures msg_delete_def)
  note h = h1 h2
  from error_slot_only_reset_by_submit_or_cancel [of example_env _ _ filled_state]
  have "error (fst (loadAllData example_env filled_state)) =
      (if failures example_env = [] then error filled_state
       else msg_of (last (failures example_env)))"
    by blast
  then have a: "error (fst (loadAllData example_env filled_state)) = msg_expenses"
    by (simp add: example_failures)
  note t = error_slot_only_reset_by_submit_or_cancel
    [of healthy_env _ _ "filled_state\<lparr>error := msg_delete\<rparr>"]
  from t have "error (fst (loadAllData healthy_env (filled_state\<lparr>error := msg_delete\<rparr>))) =
      (if failures healthy_env = [] then error (filled_state\<lparr>error := msg_delete\<rparr>)
       else msg_of (last (failures healthy_env)))"
    by blast
  then have b: "error (fst (loadAllData healthy_env (filled_state\<lparr>error := msg_delete\<rparr>))) =
      msg_delete"
    by (simp add: example_failures)
  from t h have c: "error (fst (step healthy_env Submit (filled_state\<lparr>error := msg_delete\<rparr>))) = []"
    by blast
  from h a b c show ?thesis by blast
qed

subsection \<open>Amounts that are not numbers\<close>

lemma parseFloat_abc: "parseFloat w ''abc'' = NaN"
  by (simp add: parseFloat_def StrDecimalLiteral_prefix_def
      StrUnsignedDecimalLiteral_prefix_def isStrWhiteSpaceChar_def isDecimalDigit_def)

text \<open>
  C10. The test of \<open>handleSubmit\<close> only asks that the amount be non-empty. The text
  \<open>abc\<close> is not empty and \<open>parseFloat\<close> gives NaN for it. Whenever the three required
  fields are filled and the amount parses to NaN, \<open>handleSubmit\<close> does not set the
  validation message: it issues the create request, or the update request when an
  expense is being edited, and the amount in the body of that request is NaN.
\<close>

theorem handleSubmit_sends_NaN_amount:
  "(''abc'' \<noteq> [] \<and> parseFloat w ''abc'' = NaN) \<and>
   (description (formData s) \<noteq> [] \<and> amount (formData s) \<noteq> [] \<and> category (formData s) \<noteq> [] \<and>
    parseFloat w (amount (formData s)) = NaN \<longrightarrow>
      (\<exists>body rest. snd (handleSubmit w s) =
           (case editingExpense s of None \<Rightarrow> POST body | Some e \<Rightarrow> PUT (e_id e) body) # rest \<and>
         d_amount body = NaN \<and> d_description body = description (formData s) \<and>
         d_category body = category (formData s) \<and> d_date body = date (formData s)) \<and>
      error (fst (handleSubmit w s)) \<noteq> msg_required)"
proof -
  have "\<exists>body rest. snd (handleSubmit w s) =
           (case editingExpense s of None \<Rightarrow> POST body | Some e \<Rightarrow> PUT (e_id e) body) # rest \<and>
         d_amount body = NaN \<and> d_description body = description (formData s) \<and>
         d_category body = category (formData s) \<and> d_date body = date (formData s)"
    and "error (fst (handleSubmit w s)) \<noteq> msg_required"
    if h: "description (formData s) \<noteq> []" "amount (formData s) \<noteq> []"
      "category (formData s) \<noteq> []" "parseFloat w (amount (formData s)) = NaN"
  proof -
    from h have valid: "\<not> invalid_form (formData s)"
      by (simp add: invalid_form_def)
    have req: "submit_request w s =
        (case editingExpense s of None \<Rightarrow> POST (expenseData w (formData s))
         | Some e \<Rightarrow> PUT (e_id e) (expenseData w (formData s)))"
      by (simp add: submit_request_def split: option.split)
    have body: "d_amount (expenseData w (formData s)) = NaN"
      "d_description (expenseData w (formData s)) = description (formData s)"
      "d_category (expenseData w (formData s)) = category (formData s)"
      "d_date (expenseData w (formData s)) = date (formData s)"
      using h(4) by (simp_all add: expenseData_def)
    have "\<exists>rest. snd (handleSubmit w s) = submit_request w s # rest"
      using valid by (cases "accepts w (submit_request w s)")
        (simp_all add: handleSubmit_accepted handleSubmit_refused)
    with req body
    show "\<exists>body rest. snd (handleSubmit w s) =
           (case editingExpense s of None \<Rightarrow> POST body | Some e \<Rightarrow> PUT (e_id e) body) # rest \<and>
         d_amount body = NaN \<and> d_description body = description (formData s) \<and>
         d_category body = category (formData s) \<and> d_date body = date (formData s)"
      by metis
    have "msg_of f \<noteq> msg_required" for f
      by (cases f) (simp_all add: msg_defs)
    then show "error (fst (handleSubmit w s)) \<noteq> msg_required"
      using valid by (simp add: handleSubmit_error) (simp add: msg_defs split: option.split)
  qed
  then show ?thesis
    by (simp add: parseFloat_abc)
qed

theorem handleSubmit_sends_NaN_amount_witness:
  "description (formData (filled_state\<lparr>formData := lunch_form\<lparr>amount := ''abc''\<rparr>\<rparr>)) \<noteq> [] \<and>
   amount (formData (filled_state\<lparr>formData := lunch_form\<lparr>amount := ''abc''\<rparr>\<rparr>)) \<noteq> [] \<and>
   category (formData (filled_state\<lparr>formData := lunch_form\<lparr>amount := ''abc''\<rparr>\<rparr>)) \<noteq> [] \<and>
   parseFloat healthy_env
     (amount (formData (filled_state\<lparr>formData := lunch_form\<lparr>amount := ''abc''\<rparr>\<rparr>))) = NaN \<and>
   (\<exists>body rest.
      snd (handleSubmit healthy_env (filled_state\<lparr>formData := lunch_form\<lparr>amount := ''abc''\<rparr>\<rparr>)) =
        POST body # rest \<and> d_amount body = NaN)"
proof -
  let ?s = "filled_state\<lparr>formData := lunch_form\<lparr>amount := ''abc''\<rparr>\<rparr>"
  have h: "description (formData ?s) \<noteq> []" "amount (formData ?s) \<noteq> []"
    "category (formData ?s) \<noteq> []" "parseFloat healthy_env (amount (formData ?s)) = NaN"
    by (simp_all add: lunch_form_def parseFloat_abc)
  have create: "editingExpense ?s = None"
    by (simp add: filled_state_simps)
  from h handleSubmit_sends_NaN_amount [of healthy_env ?s]
  have "\<exists>body rest. snd (handleSubmit healthy_env ?s) =
           (case editingExpense ?s of None \<Rightarrow> POST body | Some e \<Rightarrow> PUT (e_id e) body) # rest \<and>
         d_amount body = NaN \<and> d_description body = description (formData ?s) \<and>
         d_category body = category (formData ?s) \<and> d_date body = date (formData ?s)"
    by blast
  then have "\<exists>body rest. snd (handleSubmit healthy_env ?s) = POST body # rest \<and> d_amount body = NaN"
    unfolding create by auto
  with h show ?thesis by blast
qed

subsection \<open>The modal\<close>

lemma handleSubmit_frame:
  "showForm (fst (handleSubmit w s)) = (\<not> submit_succeeds w s \<and> showForm s)"
  "editingExpense (fst (handleSubmit w s)) =
     (if submit_succeeds w s then None else editingExpense s)"
proof -
  consider "invalid_form (formData s)"
    | "\<not> invalid_form (formData s)" "accepts w (submit_request w s)"
    | "\<not> invalid_form (formData s)" "\<not> accepts w (submit_request w s)"
    by blast
  then have "showForm (fst (handleSubmit w s)) = (\<not> submit_succeeds w s \<and> showForm s) \<and>
      editingExpense (fst (handleSubmit w s)) =
        (if submit_succeeds w s then None else editingExpense s)"
  proof cases
    case 1
    then show ?thesis by (simp add: handleSubmit_invalid submit_succeeds_def)
  next
    case 2
    then show ?thesis
      by (simp add: handleSubmit_accepted submit_succeeds_def loadAllData_frame)
  next
    case 3
    then show ?thesis by (simp add: handleSubmit_refused submit_succeeds_def)
  qed
  then show "showForm (fst (handleSubmit w s)) = (\<not> submit_succeeds w s \<and> showForm s)"
    and "editingExpense (fst (handleSubmit w s)) =
      (if submit_succeeds w s then None else editingExpense s)"
    by simp_all
qed

text \<open>
  While every record given to the edit action has a numeric amount, a closed form has no
  expense being edited.
\<close>

lemma step_keeps_closed_not_editing:
  assumes "showForm s \<or> editingExpense s = None" and "numeric_edit ev"
  shows "showForm (fst (step w ev s)) \<or> editingExpense (fst (step w ev s)) = None"
proof (cases ev)
  case Mount
  with assms show ?thesis by (simp add: loadAllData_frame)
next
  case (InputChange f v)
  with assms show ?thesis by (cases f) simp_all
next
  case Submit
  with assms show ?thesis by (simp add: handleSubmit_frame)
next
  case (Edit e)
  with assms(2) show ?thesis by (auto simp: handleEdit_def Let_def)
next
  case (Delete i)
  with assms show ?thesis
    by (simp add: handleDelete_cases loadAllData_frame)
next
  case Cancel
  then show ?thesis by (simp add: cancelForm_def)
next
  case NewExpense
  then show ?thesis by (simp add: newExpense_def)
qed

lemma run_keeps_closed_not_editing:
  "showForm s \<or> editingExpense s = None \<Longrightarrow> list_all (numeric_edit \<circ> snd) evs \<Longrightarrow>
   showForm (run evs s) \<or> editingExpense (run evs s) = None"
proof (induction evs arbitrary: s)
  case Nil
  then show ?case by simp
next
  case (Cons a evs)
  obtain w ev where a: "a = (w, ev)" by (cases a)
  from Cons.prems have ev: "numeric_edit ev" and evs: "list_all (numeric_edit \<circ> snd) evs"
    by (simp_all add: a comp_def)
  from Cons.prems(1) ev
  have "showForm (fst (step w ev s)) \<or> editingExpense (fst (step w ev s)) = None"
    by (rule step_keeps_closed_not_editing)
  then have "showForm (run evs (fst (step w ev s))) \<or>
      editingExpense (run evs (fst (step w ev s))) = None"
    using evs by (rule Cons.IH)
  then show ?case
    unfolding a by simp
qed

lemma reachable_closed_not_editing:
  "list_all (numeric_edit \<circ> snd) evs \<Longrightarrow>
   showForm (run evs (initial_state w0)) \<or> editingExpense (run evs (initial_state w0)) = None"
  by (rule run_keeps_closed_not_editing) (simp_all add: initial_state_def)

text \<open>
  What a record without an amount does, which the amended claim below leaves aside: the
  edit action on it throws after the expense being edited is set, so the form stays
  closed with that expense held, and the new-expense action then opens it for editing.
\<close>

lemma edit_without_amount_then_new:
  "modal_of (run [(w1, Edit broken)] (initial_state w0)) = Closed"
  "editingExpense (run [(w1, Edit broken)] (initial_state w0)) = Some broken"
  "modal_of (run [(w1, Edit broken), (w2, NewExpense)] (initial_state w0)) = OpenEdit broken"
  by (simp_all add: handleEdit_def Let_def newExpense_def modal_of_def initial_state_def
      broken_def)

text \<open>
  C6, as the claim states it, fails: in the state reached from the initial one by the
  first load and the new-expense action the modal is open for creation, and the edit
  action on a row takes it to open for editing that row, which is none of the listed
  transitions.
\<close>

theorem modal_edit_while_open_counterexample:
  "modal_of open_create_state = OpenCreate \<and>
   modal_of (fst (step healthy_env (Edit lunch) open_create_state)) = OpenEdit lunch \<and>
   \<not> listed_transition healthy_env open_create_state (Edit lunch)
       (modal_of (fst (step healthy_env (Edit lunch) open_create_state)))"
  by (simp add: handleEdit_def Let_def modal_of_def open_create_state_simps lunch_def)

text \<open>
  C6, amended. Take any sequence of events in which every record given to the edit action
  has a numeric amount, the state \<open>s\<close> it leads to from the initial one, and one more such
  event. From closed, the new-expense action opens the modal for creation (no expense
  being edited) and the edit action opens it for editing that expense, with the form
  prefilled. From open, cancel and a successful submit close it and a failed submit
  leaves it as it is; the handlers of the two opening actions are not guarded by the open
  flag: the edit action turns the open modal to editing that expense, prefilled, and the
  new-expense action leaves it as it is. Every change of the modal is one of the listed
  transitions or this retargeting of an open modal by the edit action. The render holds
  at most one modal, and none while it is loading or the modal is closed.
\<close>

theorem modal_state_machine:
  assumes "s = run evs (initial_state w0)" and "list_all (numeric_edit \<circ> snd) evs"
    and "e_amount e = Some x" and "numeric_edit ev"
  shows "(modal_of s = Closed \<longrightarrow>
            modal_of (fst (step w NewExpense s)) = OpenCreate \<and>
            editingExpense (fst (step w NewExpense s)) = None \<and>
            modal_of (fst (step w (Edit e) s)) = OpenEdit e \<and>
            editingExpense (fst (step w (Edit e) s)) = Some e \<and>
            formData (fst (step w (Edit e) s)) =
              \<lparr>description = e_description e, amount = Number_toString x,
               category = e_category e, date = e_date e\<rparr>) \<and>
         (modal_of s \<noteq> Closed \<longrightarrow>
            modal_of (fst (step w Cancel s)) = Closed \<and>
            (submit_succeeds w s \<longrightarrow> modal_of (fst (step w Submit s)) = Closed) \<and>
            (\<not> submit_succeeds w s \<longrightarrow> modal_of (fst (step w Submit s)) = modal_of s) \<and>
            modal_of (fst (step w (Edit e) s)) = OpenEdit e \<and>
            formData (fst (step w (Edit e) s)) =
              \<lparr>description = e_description e, amount = Number_toString x,
               category = e_category e, date = e_date e\<rparr> \<and>
            modal_of (fst (step w NewExpense s)) = modal_of s) \<and>
         (modal_of (fst (step w ev s)) \<noteq> modal_of s \<longrightarrow>
            listed_transition w s ev (modal_of (fst (step w ev s))) \<or>
            modal_of s \<noteq> Closed \<and>
              (\<exists>e' x'. ev = Edit e' \<and> e_amount e' = Some x' \<and>
                 modal_of (fst (step w ev s)) = OpenEdit e' \<and>
                 formData (fst (step w ev s)) =
                   \<lparr>description = e_description e', amount = Number_toString x',
                    category = e_category e', date = e_date e'\<rparr>)) \<and>
         length (modals s) \<le> 1 \<and> (loading s \<or> modal_of s = Closed \<longrightarrow> modals s = [])"
proof -
  have inv: "showForm s \<or> editingExpense s = None"
    unfolding assms(1) using assms(2) by (rule reachable_closed_not_editing)
  then have closed: "editingExpense s = None" if "modal_of s = Closed"
    using that by (auto simp: modal_of_def split: if_splits option.splits)
  have edit: "modal_of (fst (step w (Edit e) s)) = OpenEdit e"
    "editingExpense (fst (step w (Edit e) s)) = Some e"
    "formData (fst (step w (Edit e) s)) =
       \<lparr>description = e_description e, amount = Number_toString x,
        category = e_category e, date = e_date e\<rparr>"
    using assms(3) by (simp_all add: handleEdit_numeric modal_of_def)
  have a: "modal_of s = Closed \<longrightarrow>
            modal_of (fst (step w NewExpense s)) = OpenCreate \<and>
            editingExpense (fst (step w NewExpense s)) = None"
    using closed by (auto simp: newExpense_def modal_of_def)
  have b: "modal_of s \<noteq> Closed \<longrightarrow>
            modal_of (fst (step w Cancel s)) = Closed \<and>
            (submit_succeeds w s \<longrightarrow> modal_of (fst (step w Submit s)) = Closed) \<and>
            (\<not> submit_succeeds w s \<longrightarrow> modal_of (fst (step w Submit s)) = modal_of s) \<and>
            modal_of (fst (step w NewExpense s)) = modal_of s"
  proof -
    have "modal_of (fst (step w Cancel s)) = Closed"
      by (simp add: cancelForm_def modal_of_def)
    moreover have "modal_of (fst (step w NewExpense s)) = modal_of s" if "modal_of s \<noteq> Closed"
      using that by (auto simp: newExpense_def modal_of_def split: if_splits)
    moreover have "modal_of (fst (step w Submit s)) =
        (if submit_succeeds w s then Closed else modal_of s)"
      by (simp add: handleSubmit_modal)
    ultimately show ?thesis by simp
  qed
  have c: "modal_of (fst (step w ev s)) \<noteq> modal_of s \<longrightarrow>
            listed_transition w s ev (modal_of (fst (step w ev s))) \<or>
            modal_of s \<noteq> Closed \<and>
              (\<exists>e' x'. ev = Edit e' \<and> e_amount e' = Some x' \<and>
                 modal_of (fst (step w ev s)) = OpenEdit e' \<and>
                 formData (fst (step w ev s)) =
                   \<lparr>description = e_description e', amount = Number_toString x',
                    category = e_category e', date = e_date e'\<rparr>)"
  proof (cases ev)
    case NewExpense
    with inv show ?thesis
      by (auto simp: newExpense_def modal_of_def split: option.splits if_splits)
  next
    case (Edit e')
    with assms(4) obtain x' where x': "e_amount e' = Some x'" by auto
    then have "modal_of (fst (step w (Edit e') s)) = OpenEdit e'"
      "formData (fst (step w (Edit e') s)) =
         \<lparr>description = e_description e', amount = Number_toString x',
          category = e_category e', date = e_date e'\<rparr>"
      by (simp_all add: handleEdit_numeric modal_of_def)
    with Edit x' show ?thesis by auto
  next
    case Cancel
    then show ?thesis
      by (auto simp: cancelForm_def modal_of_def split: option.splits)
  next
    case Submit
    then show ?thesis by (simp add: handleSubmit_modal)
  next
    case Mount
    then show ?thesis by (simp add: modal_of_def loadAllData_frame)
  next
    case (InputChange f v)
    then show ?thesis by (cases f) (simp_all add: modal_of_def)
  next
    case (Delete i)
    then show ?thesis by (simp add: handleDelete_modal)
  qed
  have d: "length (modals s) \<le> 1 \<and> (loading s \<or> modal_of s = Closed \<longrightarrow> modals s = [])"
    by (simp add: modals_def modal_of_def split: option.split)
  from a b c d edit show ?thesis by blast
qed

theorem modal_state_machine_witness:
  "list_all (numeric_edit \<circ> snd) [] \<and> e_amount lunch = Some (Finite False 255 2) \<and>
   numeric_edit Cancel \<and>
   modal_of (run [] (initial_state healthy_env)) = Closed \<and>
   modal_of (fst (step healthy_env NewExpense (run [] (initial_state healthy_env)))) = OpenCreate \<and>
   modal_of (fst (step healthy_env (Edit lunch) (run [] (initial_state healthy_env)))) = OpenEdit lunch \<and>
   list_all (numeric_edit \<circ> snd) [(healthy_env, Mount), (healthy_env, NewExpense)] \<and>
   modal_of open_create_state \<noteq> Closed \<and>
   modal_of (fst (step healthy_env Cancel open_create_state)) = Closed \<and>
   \<not> submit_succeeds healthy_env open_create_state \<and>
   modal_of (fst (step healthy_env Submit open_create_state)) = modal_of open_create_state \<and>
   modal_of (fst (step healthy_env (Edit lunch) open_create_state)) = OpenEdit lunch \<and>
   amount (formData (fst (step healthy_env (Edit lunch) open_create_state))) = ''25.5'' \<and>
   length (modals open_create_state) \<le> 1"
proof -
  have g: "list_all (numeric_edit \<circ> snd) []" "e_amount lunch = Some (Finite False 255 2)"
    "numeric_edit Cancel"
    "list_all (numeric_edit \<circ> snd) [(healthy_env, Mount), (healthy_env, NewExpense)]"
    by (simp_all add: lunch_def)
  have h0: "modal_of (run [] (initial_state healthy_env)) = Closed"
    by (simp add: modal_of_def initial_state_def)
  from h0 modal_state_machine [OF refl g(1) g(2) g(3), of healthy_env healthy_env]
  have a: "modal_of (fst (step healthy_env NewExpense (run [] (initial_state healthy_env)))) = OpenCreate"
    "modal_of (fst (step healthy_env (Edit lunch) (run [] (initial_state healthy_env)))) = OpenEdit lunch"
    by blast+
  have h1: "modal_of open_create_state \<noteq> Closed" "\<not> submit_succeeds healthy_env open_create_state"
    by (simp_all add: modal_of_def submit_succeeds_def invalid_form_def default_form_def
        open_create_state_simps)
  note t = modal_state_machine [OF open_create_state_def g(4) g(2) g(3), of healthy_env]
  from h1 t
  have b: "modal_of (fst (step healthy_env Cancel open_create_state)) = Closed"
    "modal_of (fst (step healthy_env Submit open_create_state)) = modal_of open_create_state"
    "modal_of (fst (step healthy_env (Edit lunch) open_create_state)) = OpenEdit lunch"
    "length (modals open_create_state) \<le> 1"
    by blast+
  from h1 t have "formData (fst (step healthy_env (Edit lunch) open_create_state)) =
      \<lparr>description = e_description lunch, amount = Number_toString (Finite False 255 2),
       category = e_category lunch, date = e_date lunch\<rparr>"
    by blast
  then have c: "amount (formData (fst (step healthy_env (Edit lunch) open_create_state))) = ''25.5''"
    by (simp add: Number_toString_examples)
  from g h0 a h1 b c show ?thesis by blast
qed

end
